theory Spec2Isabelle
  imports Complex_Main
begin

section \<open>The TTS streaming layer of livekit-agents (tts.py)\<close>

text \<open>
  A shallow embedding of \<^verbatim>\<open>livekit/agents/tts/tts.py\<close>: the provider base class
  \<^verbatim>\<open>TTS\<close>, the one-shot \<^verbatim>\<open>ChunkedStream\<close> and the
  bidirectional \<^verbatim>\<open>SynthesizeStream\<close>.

  Conventions.
  \<^item> An object is a record; a method takes the object and returns the updated object.
  \<^item> A raise is \<open>Inl e\<close> of \<open>error + 'a\<close>; the constructors of \<open>error\<close> are the
    Python exception classes the source raises, with their message, and the errors of
    the helpers that are modelled from the spec.
  \<^item> An \<^verbatim>\<open>async def\<close> that may wait for ever returns an option: \<open>None\<close> is
    "the call never returns".
  \<^item> The timeouts are Python floats that the source only compares with 0 and hands to
    \<^verbatim>\<open>asyncio.wait_for\<close>; they are modelled as reals, in the time unit of the delays.
  \<^item> \<^verbatim>\<open>_main_task\<close> is abstract: what the background task does while the consumer
    is suspended is an input of the model (a \<open>move\<close>).
\<close>

subsection \<open>Errors\<close>

datatype error =
    TimeoutError string        \<comment> \<open>\<^verbatim>\<open>TimeoutError\<close> / \<^verbatim>\<open>asyncio.TimeoutError\<close>; the spec's SynthesisTimeout\<close>
  | StopAsyncIteration         \<comment> \<open>end of the asynchronous iteration\<close>
  | RuntimeError string        \<comment> \<open>the spec's StreamClosed and InputEnded, told apart by the message\<close>
  | NotImplementedError string \<comment> \<open>the spec's UnsupportedOperation\<close>
  | QueueClosed                \<comment> \<open>a send on a closed queue\<close>
  | ValueError string

subsection \<open>Data model\<close>

text \<open>\<^verbatim>\<open>rtc.AudioFrame\<close> (an external type): sample data, sample rate, channel count.\<close>

record audio_frame =
  frame_data :: "int list"
  frame_sample_rate :: int
  frame_num_channels :: int

record synthesized_audio =
  request_id :: string
  segment_id :: string
  frame :: audio_frame
  delta_text :: string

record tts_capabilities =
  streaming :: bool

subsection \<open>The closable queue\<close>

text \<open>
  Modelled from the spec: \<^verbatim>\<open>aio.Chan\<close> (livekit/agents/utils/aio) is not among the
  sources. Section 4.1 of the spec describes it: an ordered first-in-first-out queue with
  an explicit closed state; a send enqueues and fails with QueueClosed on a closed queue;
  close is idempotent and marks that no further send succeeds; a receive returns the next
  event, signals end-of-stream when the queue is closed and drained, and suspends otherwise.
\<close>

record 'a chan =
  queue :: "'a list"
  closed :: bool

definition Chan :: "'a chan" where
  "Chan = \<lparr>queue = [], closed = False\<rparr>"

definition send_nowait :: "'a chan \<Rightarrow> 'a \<Rightarrow> error + 'a chan" where
  "send_nowait ch x =
     (if closed ch then Inl QueueClosed else Inr (ch\<lparr>queue := queue ch @ [x]\<rparr>))"

definition chan_close :: "'a chan \<Rightarrow> 'a chan" where
  "chan_close ch = ch\<lparr>closed := True\<rparr>"

datatype 'a received = Item 'a | EndOfStream | Suspended

definition receive :: "'a chan \<Rightarrow> 'a received \<times> 'a chan" where
  "receive ch =
     (case queue ch of
        x # rest \<Rightarrow> (Item x, ch\<lparr>queue := rest\<rparr>)
      | [] \<Rightarrow> (if closed ch then EndOfStream else Suspended, ch))"

subsection \<open>The background task\<close>

text \<open>
  An \<^verbatim>\<open>asyncio\<close> task is running or done; a done task stays done. The outcome of a
  done task is a normal return, an exception or a cancellation.
\<close>

datatype task_outcome = Succeeded | Failed | Cancelled

datatype task = Running | Done task_outcome

text \<open>
  Modelled from the spec: \<^verbatim>\<open>aio.gracefully_cancel\<close> (livekit/agents/utils/aio) is not among
  the sources. By section 5 of the spec it requests the cancellation of the task and waits
  until the task has stopped, and it is safe on a task that has already finished. The
  result is the outcome a task that was still running ends with; \<open>None\<close> for a task that
  was done, which is left alone.
\<close>

definition gracefully_cancel :: "task \<Rightarrow> task_outcome option" where
  "gracefully_cancel tk = (case tk of Running \<Rightarrow> Some Cancelled | Done _ \<Rightarrow> None)"

text \<open>
  What the background task does next, seen from a consumer suspended on the empty, open
  event queue: after a delay it sends an event, after a delay it terminates, or it does
  nothing for ever.
\<close>

datatype 'a move = Sends real 'a | Finishes real task_outcome | Silent

text \<open>
  \<^verbatim>\<open>self._event_ch.__anext__()\<close> awaited by the consumer. \<open>Some (d, r, ch, tk)\<close>: the
  await completes after the delay \<open>d\<close> with \<open>r\<close> (the event, or
  \<^verbatim>\<open>StopAsyncIteration\<close>), leaving the queue \<open>ch\<close> and the task \<open>tk\<close>; \<open>None\<close>: it never
  completes. A queued event and a closed, drained queue answer at once. Otherwise the
  receive is suspended and only the running task can end it: by a send, or by
  terminating, when the done-callback registered in \<^verbatim>\<open>__init__\<close>
  (\<^verbatim>\<open>lambda _: self._event_ch.close()\<close>) closes the queue.
\<close>

definition event_ch_anext ::
  "'a chan \<Rightarrow> task \<Rightarrow> 'a move \<Rightarrow> (real \<times> (error + 'a) \<times> 'a chan \<times> task) option" where
  "event_ch_anext ch tk mv =
     (case receive ch of
        (Item x, ch') \<Rightarrow> Some (0, Inr x, ch', tk)
      | (EndOfStream, ch') \<Rightarrow> Some (0, Inl StopAsyncIteration, ch', tk)
      | (Suspended, ch') \<Rightarrow>
          (case tk of
             Done _ \<Rightarrow> None
           | Running \<Rightarrow>
               (case mv of
                  Sends d x \<Rightarrow> Some (d, Inr x, ch', tk)
                | Finishes d oc \<Rightarrow> Some (d, Inl StopAsyncIteration, chan_close ch', Done oc)
                | Silent \<Rightarrow> None)))"

text \<open>
  \<^verbatim>\<open>asyncio.wait_for(aw, timeout)\<close> for a positive timeout: the result of the awaitable
  when it completes before the timeout, \<open>None\<close> (\<^verbatim>\<open>asyncio.TimeoutError\<close>) otherwise. An
  awaitable that is cut off leaves no effect.
\<close>

definition wait_for :: "(real \<times> 'r) option \<Rightarrow> real \<Rightarrow> 'r option" where
  "wait_for aw t =
     (case aw of
        None \<Rightarrow> None
      | Some (d, r) \<Rightarrow> if d < t then Some r else None)"

subsection \<open>TTS\<close>

record tts =
  t_capabilities :: tts_capabilities
  t_sample_rate :: int
  t_num_channels :: int
  t_connect_timeout :: real
  t_keepalive_timeout :: real

text \<open>\<^verbatim>\<open>TTS.__init__\<close>; both timeouts default to 0.\<close>

definition TTS :: "tts_capabilities \<Rightarrow> int \<Rightarrow> int \<Rightarrow> real \<Rightarrow> real \<Rightarrow> tts" where
  "TTS caps rate channels connect_timeout keepalive_timeout =
     \<lparr>t_capabilities = caps, t_sample_rate = rate, t_num_channels = channels,
      t_connect_timeout = connect_timeout, t_keepalive_timeout = keepalive_timeout\<rparr>"

definition capabilities :: "tts \<Rightarrow> tts_capabilities" where
  "capabilities self = t_capabilities self"

definition sample_rate :: "tts \<Rightarrow> int" where
  "sample_rate self = t_sample_rate self"

definition num_channels :: "tts \<Rightarrow> int" where
  "num_channels self = t_num_channels self"

subsection \<open>ChunkedStream\<close>

record chunked_stream =
  c_event_ch :: "synthesized_audio chan"
  c_task :: task
  c_connect_timeout :: real
  c_keepalive_timeout :: real
  c_timeout :: real

text \<open>\<^verbatim>\<open>ChunkedStream.__init__\<close>: the task is created running, the queue empty and open.\<close>

definition ChunkedStream :: "real \<Rightarrow> real \<Rightarrow> chunked_stream" where
  "ChunkedStream connect_timeout keepalive_timeout =
     \<lparr>c_event_ch = Chan, c_task = Running,
      c_connect_timeout = connect_timeout, c_keepalive_timeout = keepalive_timeout,
      c_timeout = connect_timeout\<rparr>"

text \<open>
  The background task ends with an outcome: the task is done and its done-callback
  closes the event queue. A done task does not end again.
\<close>

definition c_task_done :: "task_outcome \<Rightarrow> chunked_stream \<Rightarrow> chunked_stream" where
  "c_task_done oc self =
     (case c_task self of
        Running \<Rightarrow> self\<lparr>c_task := Done oc, c_event_ch := chan_close (c_event_ch self)\<rparr>
      | Done _ \<Rightarrow> self)"

text \<open>The background task sends an event: \<^verbatim>\<open>self._event_ch.send_nowait(ev)\<close> in a provider.\<close>

definition c_task_send :: "synthesized_audio \<Rightarrow> chunked_stream \<Rightarrow> chunked_stream" where
  "c_task_send ev self =
     (case c_task self of
        Running \<Rightarrow>
          (case send_nowait (c_event_ch self) ev of
             Inl _ \<Rightarrow> self
           | Inr ch \<Rightarrow> self\<lparr>c_event_ch := ch\<rparr>)
      | Done _ \<Rightarrow> self)"

text \<open>The tail of \<^verbatim>\<open>__anext__\<close>: an exception leaves \<^verbatim>\<open>_timeout\<close> as it is, an event sets it.\<close>

definition c_deliver ::
  "error + synthesized_audio \<Rightarrow> chunked_stream \<Rightarrow> (error + synthesized_audio) \<times> chunked_stream" where
  "c_deliver r self =
     (case r of
        Inl e \<Rightarrow> (Inl e, self)
      | Inr event \<Rightarrow> (Inr event, self\<lparr>c_timeout := c_keepalive_timeout self\<rparr>))"

definition chunked_anext ::
  "chunked_stream \<Rightarrow> synthesized_audio move \<Rightarrow>
     ((error + synthesized_audio) \<times> chunked_stream) option" where
  "chunked_anext self mv =
     (let aw = event_ch_anext (c_event_ch self) (c_task self) mv in
      if c_timeout self > 0 then
        (case wait_for aw (c_timeout self) of
           None \<Rightarrow> Some (Inl (TimeoutError ''synthesis timed out''), self)
         | Some (r, ch, tk) \<Rightarrow> Some (c_deliver r (self\<lparr>c_event_ch := ch, c_task := tk\<rparr>)))
      else
        (case aw of
           None \<Rightarrow> None
         | Some (d, r, ch, tk) \<Rightarrow> Some (c_deliver r (self\<lparr>c_event_ch := ch, c_task := tk\<rparr>))))"

text \<open>
  \<^verbatim>\<open>ChunkedStream.aclose\<close>: the task is cancelled and awaited, which runs its
  done-callback if it was still running, and then the event queue is closed. Neither step
  raises.
\<close>

definition chunked_aclose :: "chunked_stream \<Rightarrow> error + chunked_stream" where
  "chunked_aclose self =
     (let s1 = (case gracefully_cancel (c_task self) of
                  Some oc \<Rightarrow> c_task_done oc self
                | None \<Rightarrow> self)
      in Inr (s1\<lparr>c_event_ch := chan_close (c_event_ch s1)\<rparr>))"

text \<open>
  \<^verbatim>\<open>async for ev in self: body\<close> over a ChunkedStream (\<^verbatim>\<open>__aiter__\<close> returns
  \<^verbatim>\<open>self\<close>): \<^verbatim>\<open>__anext__\<close> is called until it raises; \<^verbatim>\<open>StopAsyncIteration\<close> ends the
  loop normally, any other exception leaves it. The list holds the moves of the
  background task, one for each time the consumer is suspended; when it is used up the
  task stays silent.
\<close>

definition c_suspends :: "chunked_stream \<Rightarrow> bool" where
  "c_suspends self = (queue (c_event_ch self) = [] \<and> \<not> closed (c_event_ch self))"

definition next_move :: "bool \<Rightarrow> 'a move list \<Rightarrow> 'a move \<times> 'a move list" where
  "next_move suspended mvs =
     (if suspended then (case mvs of [] \<Rightarrow> (Silent, []) | m # rest \<Rightarrow> (m, rest))
      else (Silent, mvs))"

function chunked_async_for ::
  "('acc \<Rightarrow> synthesized_audio \<Rightarrow> 'acc) \<Rightarrow> chunked_stream \<Rightarrow> synthesized_audio move list \<Rightarrow> 'acc \<Rightarrow>
     ((error + 'acc) \<times> chunked_stream) option" where
  "chunked_async_for body self mvs acc =
     (case next_move (c_suspends self) mvs of
        (mv, mvs') \<Rightarrow>
          (case chunked_anext self mv of
             None \<Rightarrow> None
           | Some (Inr ev, s') \<Rightarrow> chunked_async_for body s' mvs' (body acc ev)
           | Some (Inl StopAsyncIteration, s') \<Rightarrow> Some (Inr acc, s')
           | Some (Inl e, s') \<Rightarrow> Some (Inl e, s')))"
  by pat_completeness auto

termination chunked_async_for
  by (relation "measure (\<lambda>(body, self, mvs, acc). length (queue (c_event_ch self)) + length mvs)")
     (auto simp: next_move_def c_suspends_def chunked_anext_def event_ch_anext_def receive_def
        wait_for_def c_deliver_def Let_def chan_close_def
        split: if_splits list.splits task.splits move.splits option.splits prod.splits sum.splits)

declare chunked_async_for.simps [simp del]

text \<open>
  Modelled from the spec: \<^verbatim>\<open>misc.merge_frames\<close> (livekit/agents/utils/misc) is not among
  the sources. By section 4.2 of the spec it concatenates the frames into one contiguous
  audio buffer, so for no frame at all the buffer is empty; section 8 gives the case of
  frames of the same sample rate and channel count, whose result has that rate and
  channel count. The spec says nothing about the rate and channel count of the empty
  result, nor about frames that differ in rate or channels: the model gives 0 for the
  former and raises for the latter, and no property below rests on either.
\<close>

definition merge_frames :: "audio_frame list \<Rightarrow> error + audio_frame" where
  "merge_frames buffer =
     (case buffer of
        [] \<Rightarrow> Inr \<lparr>frame_data = [], frame_sample_rate = 0, frame_num_channels = 0\<rparr>
      | f # _ \<Rightarrow>
          if list_all (\<lambda>g. frame_sample_rate g = frame_sample_rate f
                           \<and> frame_num_channels g = frame_num_channels f) buffer
          then Inr \<lparr>frame_data = concat (map frame_data buffer),
                    frame_sample_rate = frame_sample_rate f,
                    frame_num_channels = frame_num_channels f\<rparr>
          else Inl (ValueError ''sample rate or channel count mismatch''))"

definition collect ::
  "chunked_stream \<Rightarrow> synthesized_audio move list \<Rightarrow> ((error + audio_frame) \<times> chunked_stream) option" where
  "collect self mvs =
     (case chunked_async_for (\<lambda>frames ev. frames @ [frame ev]) self mvs [] of
        None \<Rightarrow> None
      | Some (Inl e, s') \<Rightarrow> Some (Inl e, s')
      | Some (Inr frames, s') \<Rightarrow> Some (merge_frames frames, s'))"

subsection \<open>SynthesizeStream\<close>

text \<open>The input queue carries text tokens and flush markers (\<^verbatim>\<open>_FlushSentinel\<close>).\<close>

datatype input_item = Token string | FlushSentinel

text \<open>
  The fields \<open>s_cls_module\<close> and \<open>s_cls_name\<close> stand for \<^verbatim>\<open>type(self).__module__\<close> and
  \<^verbatim>\<open>type(self).__name__\<close>, the concrete subclass, which the error messages print.
\<close>

record synthesize_stream =
  s_cls_module :: string
  s_cls_name :: string
  s_input_ch :: "input_item chan"
  s_event_ch :: "synthesized_audio chan"
  s_task :: task
  s_connect_timeout :: real
  s_keepalive_timeout :: real
  s_timeout :: real
  s_standby :: bool

definition SynthesizeStream :: "string \<Rightarrow> string \<Rightarrow> real \<Rightarrow> real \<Rightarrow> synthesize_stream" where
  "SynthesizeStream cls_module cls_name connect_timeout keepalive_timeout =
     \<lparr>s_cls_module = cls_module, s_cls_name = cls_name,
      s_input_ch = Chan, s_event_ch = Chan, s_task = Running,
      s_connect_timeout = connect_timeout, s_keepalive_timeout = keepalive_timeout,
      s_timeout = connect_timeout, s_standby = True\<rparr>"

definition standby :: "synthesize_stream \<Rightarrow> bool" where
  "standby self = s_standby self"

definition check_not_closed :: "synthesize_stream \<Rightarrow> error + unit" where
  "check_not_closed self =
     (if closed (s_event_ch self)
      then Inl (RuntimeError (s_cls_module self @ ''.'' @ s_cls_name self @ '' is closed''))
      else Inr ())"

definition check_input_not_ended :: "synthesize_stream \<Rightarrow> error + unit" where
  "check_input_not_ended self =
     (if closed (s_input_ch self)
      then Inl (RuntimeError (s_cls_module self @ ''.'' @ s_cls_name self @ '' input ended''))
      else Inr ())"

definition push_text :: "synthesize_stream \<Rightarrow> string \<Rightarrow> error + synthesize_stream" where
  "push_text self token =
     (case check_input_not_ended self of
        Inl e \<Rightarrow> Inl e
      | Inr _ \<Rightarrow>
          (case check_not_closed self of
             Inl e \<Rightarrow> Inl e
           | Inr _ \<Rightarrow>
               (case send_nowait (s_input_ch self) (Token token) of
                  Inl e \<Rightarrow> Inl e
                | Inr ch \<Rightarrow> Inr (self\<lparr>s_input_ch := ch\<rparr>))))"

definition flush :: "synthesize_stream \<Rightarrow> error + synthesize_stream" where
  "flush self =
     (case check_input_not_ended self of
        Inl e \<Rightarrow> Inl e
      | Inr _ \<Rightarrow>
          (case check_not_closed self of
             Inl e \<Rightarrow> Inl e
           | Inr _ \<Rightarrow>
               (case send_nowait (s_input_ch self) FlushSentinel of
                  Inl e \<Rightarrow> Inl e
                | Inr ch \<Rightarrow> Inr (self\<lparr>s_input_ch := ch\<rparr>))))"

definition end_input :: "synthesize_stream \<Rightarrow> error + synthesize_stream" where
  "end_input self =
     (case flush self of
        Inl e \<Rightarrow> Inl e
      | Inr s1 \<Rightarrow> Inr (s1\<lparr>s_input_ch := chan_close (s_input_ch s1)\<rparr>))"

definition s_task_done :: "task_outcome \<Rightarrow> synthesize_stream \<Rightarrow> synthesize_stream" where
  "s_task_done oc self =
     (case s_task self of
        Running \<Rightarrow> self\<lparr>s_task := Done oc, s_event_ch := chan_close (s_event_ch self)\<rparr>
      | Done _ \<Rightarrow> self)"

definition s_task_send :: "synthesized_audio \<Rightarrow> synthesize_stream \<Rightarrow> synthesize_stream" where
  "s_task_send ev self =
     (case s_task self of
        Running \<Rightarrow>
          (case send_nowait (s_event_ch self) ev of
             Inl _ \<Rightarrow> self
           | Inr ch \<Rightarrow> self\<lparr>s_event_ch := ch\<rparr>)
      | Done _ \<Rightarrow> self)"

text \<open>The background task takes the next item off the input queue, if there is one.\<close>

definition s_task_recv :: "synthesize_stream \<Rightarrow> synthesize_stream" where
  "s_task_recv self =
     (case s_task self of
        Running \<Rightarrow> self\<lparr>s_input_ch := snd (receive (s_input_ch self))\<rparr>
      | Done _ \<Rightarrow> self)"

text \<open>
  \<^verbatim>\<open>SynthesizeStream.aclose\<close>: the input queue is closed, the task is cancelled and
  awaited, and the event queue is closed.
\<close>

definition synthesize_aclose :: "synthesize_stream \<Rightarrow> error + synthesize_stream" where
  "synthesize_aclose self =
     (let s1 = self\<lparr>s_input_ch := chan_close (s_input_ch self)\<rparr>;
          s2 = (case gracefully_cancel (s_task s1) of
                  Some oc \<Rightarrow> s_task_done oc s1
                | None \<Rightarrow> s1)
      in Inr (s2\<lparr>s_event_ch := chan_close (s_event_ch s2)\<rparr>))"

definition s_deliver ::
  "error + synthesized_audio \<Rightarrow> synthesize_stream \<Rightarrow> (error + synthesized_audio) \<times> synthesize_stream" where
  "s_deliver r self =
     (case r of
        Inl e \<Rightarrow> (Inl e, self)
      | Inr event \<Rightarrow> (Inr event, self\<lparr>s_timeout := s_keepalive_timeout self\<rparr>))"

definition synthesize_anext ::
  "synthesize_stream \<Rightarrow> synthesized_audio move \<Rightarrow>
     ((error + synthesized_audio) \<times> synthesize_stream) option" where
  "synthesize_anext self mv =
     (let aw = event_ch_anext (s_event_ch self) (s_task self) mv in
      if s_timeout self > 0 then
        (case wait_for aw (s_timeout self) of
           None \<Rightarrow> Some (Inl (TimeoutError ''synthesis timed out''), self)
         | Some (r, ch, tk) \<Rightarrow> Some (s_deliver r (self\<lparr>s_event_ch := ch, s_task := tk\<rparr>)))
      else
        (case aw of
           None \<Rightarrow> None
         | Some (d, r, ch, tk) \<Rightarrow> Some (s_deliver r (self\<lparr>s_event_ch := ch, s_task := tk\<rparr>))))"

definition s_suspends :: "synthesize_stream \<Rightarrow> bool" where
  "s_suspends self = (queue (s_event_ch self) = [] \<and> \<not> closed (s_event_ch self))"

function synthesize_async_for ::
  "('acc \<Rightarrow> synthesized_audio \<Rightarrow> 'acc) \<Rightarrow> synthesize_stream \<Rightarrow> synthesized_audio move list \<Rightarrow> 'acc \<Rightarrow>
     ((error + 'acc) \<times> synthesize_stream) option" where
  "synthesize_async_for body self mvs acc =
     (case next_move (s_suspends self) mvs of
        (mv, mvs') \<Rightarrow>
          (case synthesize_anext self mv of
             None \<Rightarrow> None
           | Some (Inr ev, s') \<Rightarrow> synthesize_async_for body s' mvs' (body acc ev)
           | Some (Inl StopAsyncIteration, s') \<Rightarrow> Some (Inr acc, s')
           | Some (Inl e, s') \<Rightarrow> Some (Inl e, s')))"
  by pat_completeness auto

termination synthesize_async_for
  by (relation "measure (\<lambda>(body, self, mvs, acc). length (queue (s_event_ch self)) + length mvs)")
     (auto simp: next_move_def s_suspends_def synthesize_anext_def event_ch_anext_def receive_def
        wait_for_def s_deliver_def Let_def chan_close_def
        split: if_splits list.splits task.splits move.splits option.splits prod.splits sum.splits)

declare synthesize_async_for.simps [simp del]

subsection \<open>TTS.stream and TTS.aclose\<close>

text \<open>
  \<^verbatim>\<open>TTS.stream\<close> of the base class raises, whatever the capabilities say; a provider that
  streams overrides it. \<^verbatim>\<open>TTS.synthesize\<close> is abstract and \<^verbatim>\<open>TTS.aclose\<close> has an empty body.
\<close>

definition stream :: "tts \<Rightarrow> error + synthesize_stream" where
  "stream self =
     Inl (NotImplementedError
       ''streaming is not supported by this TTS, please use a different TTS or use a StreamAdapter'')"

definition tts_aclose :: "tts \<Rightarrow> tts" where
  "tts_aclose self = self"

subsection \<open>Sequences of operations\<close>

text \<open>
  The operations on a stream: the calls of the consumer, and the steps of the background
  task (a send, a receive from the input queue, its end). A call that raises leaves the
  object as the raise left it and the sequence goes on; after a call that never returns
  there is no later state (\<open>None\<close>).
\<close>

datatype chunked_op =
    C_anext "synthesized_audio move"
  | C_collect "synthesized_audio move list"
  | C_aclose
  | C_task_send synthesized_audio
  | C_task_done task_outcome

definition chunked_exec :: "chunked_stream \<Rightarrow> chunked_op \<Rightarrow> chunked_stream option" where
  "chunked_exec self a =
     (case a of
        C_anext mv \<Rightarrow> map_option snd (chunked_anext self mv)
      | C_collect mvs \<Rightarrow> map_option snd (collect self mvs)
      | C_aclose \<Rightarrow> (case chunked_aclose self of Inl _ \<Rightarrow> Some self | Inr s' \<Rightarrow> Some s')
      | C_task_send ev \<Rightarrow> Some (c_task_send ev self)
      | C_task_done oc \<Rightarrow> Some (c_task_done oc self))"

fun chunked_run :: "chunked_stream \<Rightarrow> chunked_op list \<Rightarrow> chunked_stream option" where
  "chunked_run self [] = Some self"
| "chunked_run self (a # as) =
     (case chunked_exec self a of None \<Rightarrow> None | Some s' \<Rightarrow> chunked_run s' as)"

datatype synthesize_op =
    S_push_text string
  | S_flush
  | S_end_input
  | S_aclose
  | S_anext "synthesized_audio move"
  | S_task_send synthesized_audio
  | S_task_recv
  | S_task_done task_outcome

definition synthesize_exec :: "synthesize_stream \<Rightarrow> synthesize_op \<Rightarrow> synthesize_stream option" where
  "synthesize_exec self a =
     (case a of
        S_push_text token \<Rightarrow> (case push_text self token of Inl _ \<Rightarrow> Some self | Inr s' \<Rightarrow> Some s')
      | S_flush \<Rightarrow> (case flush self of Inl _ \<Rightarrow> Some self | Inr s' \<Rightarrow> Some s')
      | S_end_input \<Rightarrow> (case end_input self of Inl _ \<Rightarrow> Some self | Inr s' \<Rightarrow> Some s')
      | S_aclose \<Rightarrow> (case synthesize_aclose self of Inl _ \<Rightarrow> Some self | Inr s' \<Rightarrow> Some s')
      | S_anext mv \<Rightarrow> map_option snd (synthesize_anext self mv)
      | S_task_send ev \<Rightarrow> Some (s_task_send ev self)
      | S_task_recv \<Rightarrow> Some (s_task_recv self)
      | S_task_done oc \<Rightarrow> Some (s_task_done oc self))"

fun synthesize_run :: "synthesize_stream \<Rightarrow> synthesize_op list \<Rightarrow> synthesize_stream option" where
  "synthesize_run self [] = Some self"
| "synthesize_run self (a # as) =
     (case synthesize_exec self a of None \<Rightarrow> None | Some s' \<Rightarrow> synthesize_run s' as)"

text \<open>
  A provider with its streams. The stream objects of this file hold no reference to the
  provider; an operation addresses the provider or one stream by its index.
\<close>

datatype tts_op = T_capabilities | T_sample_rate | T_num_channels | T_stream | T_aclose

definition tts_exec :: "tts \<Rightarrow> tts_op \<Rightarrow> tts" where
  "tts_exec self a =
     (case a of
        T_capabilities \<Rightarrow> (case capabilities self of _ \<Rightarrow> self)
      | T_sample_rate \<Rightarrow> (case sample_rate self of _ \<Rightarrow> self)
      | T_num_channels \<Rightarrow> (case num_channels self of _ \<Rightarrow> self)
      | T_stream \<Rightarrow> (case stream self of Inl _ \<Rightarrow> self | Inr _ \<Rightarrow> self)
      | T_aclose \<Rightarrow> tts_aclose self)"

record session =
  provider :: tts
  chunked_streams :: "chunked_stream list"
  synthesize_streams :: "synthesize_stream list"

datatype session_op =
    On_tts tts_op
  | On_chunked nat chunked_op
  | On_synthesize nat synthesize_op

definition session_exec :: "session \<Rightarrow> session_op \<Rightarrow> session option" where
  "session_exec w a =
     (case a of
        On_tts b \<Rightarrow> Some (w\<lparr>provider := tts_exec (provider w) b\<rparr>)
      | On_chunked i b \<Rightarrow>
          (if i < length (chunked_streams w)
           then map_option (\<lambda>s'. w\<lparr>chunked_streams := (chunked_streams w)[i := s']\<rparr>)
                  (chunked_exec (chunked_streams w ! i) b)
           else Some w)
      | On_synthesize i b \<Rightarrow>
          (if i < length (synthesize_streams w)
           then map_option (\<lambda>s'. w\<lparr>synthesize_streams := (synthesize_streams w)[i := s']\<rparr>)
                  (synthesize_exec (synthesize_streams w ! i) b)
           else Some w))"

fun session_run :: "session \<Rightarrow> session_op list \<Rightarrow> session option" where
  "session_run w [] = Some w"
| "session_run w (a # as) =
     (case session_exec w a of None \<Rightarrow> None | Some w' \<Rightarrow> session_run w' as)"

subsection \<open>Two events\<close>

text \<open>Two events of one request, with frames of the same rate and channel count.\<close>

abbreviation ev0 :: synthesized_audio where
  "ev0 \<equiv> \<lparr>request_id = ''r1'', segment_id = ''s0'',
           frame = \<lparr>frame_data = [3, 4], frame_sample_rate = 24000, frame_num_channels = 1\<rparr>,
           delta_text = ''hi''\<rparr>"

abbreviation ev_next :: synthesized_audio where
  "ev_next \<equiv> \<lparr>request_id = ''r1'', segment_id = ''s0'',
           frame = \<lparr>frame_data = [5, 6, 7], frame_sample_rate = 24000, frame_num_channels = 1\<rparr>,
           delta_text = '' there''\<rparr>"

section \<open>Properties\<close>

lemmas chan_defs = Chan_def send_nowait_def chan_close_def receive_def event_ch_anext_def wait_for_def

lemmas chunked_defs = ChunkedStream_def c_task_done_def c_task_send_def c_deliver_def
  chunked_anext_def chunked_aclose_def gracefully_cancel_def c_suspends_def

lemmas synthesize_defs = SynthesizeStream_def s_task_done_def s_task_send_def s_task_recv_def
  s_deliver_def synthesize_anext_def synthesize_aclose_def gracefully_cancel_def s_suspends_def
  check_not_closed_def check_input_not_ended_def push_text_def flush_def end_input_def

subsection \<open>The timeout fields\<close>

text \<open>
  \<^verbatim>\<open>__anext__\<close> never writes the configured timeouts; it sets the active timeout to the
  keepalive timeout when it returns an event and leaves it alone when it raises.
\<close>

lemma chunked_anext_keepalive:
  "chunked_anext self mv = Some (r, s') \<Longrightarrow> c_keepalive_timeout s' = c_keepalive_timeout self \<and> c_connect_timeout s' = c_connect_timeout self"
  by (auto simp: chunked_anext_def c_deliver_def Let_def split: if_splits option.splits sum.splits prod.splits)

lemma chunked_anext_event_timeout:
  "chunked_anext self mv = Some (Inr ev, s') \<Longrightarrow> c_timeout s' = c_keepalive_timeout self"
  by (auto simp: chunked_anext_def c_deliver_def Let_def split: if_splits option.splits sum.splits prod.splits)

lemma chunked_anext_error_timeout:
  "chunked_anext self mv = Some (Inl e, s') \<Longrightarrow> c_timeout s' = c_timeout self"
  by (auto simp: chunked_anext_def c_deliver_def Let_def split: if_splits option.splits sum.splits prod.splits)

lemma chunked_anext_timeout_cases:
  "chunked_anext self mv = Some (r, s') \<Longrightarrow> c_timeout s' = c_timeout self \<or> c_timeout s' = c_keepalive_timeout self"
  by (cases r) (auto dest: chunked_anext_event_timeout chunked_anext_error_timeout)

lemma chunked_async_for_fields:
  "chunked_async_for body self mvs acc = Some (r, s') \<Longrightarrow>
     c_keepalive_timeout s' = c_keepalive_timeout self \<and> c_connect_timeout s' = c_connect_timeout self \<and>
     (c_timeout s' = c_timeout self \<or> c_timeout s' = c_keepalive_timeout self)"
proof (induction body self mvs acc rule: chunked_async_for.induct)
  case (1 body self mvs acc)
  obtain mv mvs' where nm: "next_move (c_suspends self) mvs = (mv, mvs')" by force
  from "1.prems" obtain r1 s1 where a: "chunked_anext self mv = Some (r1, s1)"
    by (subst (asm) chunked_async_for.simps) (auto simp: nm split: option.splits)
  note k = chunked_anext_keepalive [OF a] and t = chunked_anext_timeout_cases [OF a]
  show ?case
  proof (cases r1)
    case (Inl e)
    with "1.prems" a nm have "s' = s1"
      by (subst (asm) chunked_async_for.simps) (auto split: error.splits)
    with k t show ?thesis by simp
  next
    case (Inr ev)
    with "1.prems" a nm have rec: "chunked_async_for body s1 mvs' (body acc ev) = Some (r, s')"
      by (subst (asm) chunked_async_for.simps) auto
    from "1.IH" [OF nm [symmetric] a [unfolded Inr] refl refl rec] k t
    show ?thesis by auto
  qed
qed

lemma collect_fields:
  "collect self mvs = Some (r, s') \<Longrightarrow>
     c_keepalive_timeout s' = c_keepalive_timeout self \<and>
     (c_timeout s' = c_timeout self \<or> c_timeout s' = c_keepalive_timeout self)"
  by (auto simp: collect_def split: option.splits sum.splits prod.splits dest: chunked_async_for_fields)

lemma chunked_exec_fields:
  assumes "chunked_exec self a = Some s'"
  shows "c_keepalive_timeout s' = c_keepalive_timeout self \<and>
     (c_timeout s' = c_timeout self \<or> c_timeout s' = c_keepalive_timeout self)"
proof (cases a)
  case (C_anext mv)
  with assms show ?thesis
    by (auto simp: chunked_exec_def dest: chunked_anext_keepalive chunked_anext_timeout_cases)
next
  case (C_collect mvs)
  with assms show ?thesis by (auto simp: chunked_exec_def dest: collect_fields)
next
  case C_aclose
  with assms show ?thesis
    by (auto simp: chunked_exec_def chunked_aclose_def gracefully_cancel_def c_task_done_def Let_def split: task.splits)
next
  case (C_task_send ev)
  with assms show ?thesis
    by (auto simp: chunked_exec_def c_task_send_def split: task.splits sum.splits)
next
  case (C_task_done oc)
  with assms show ?thesis
    by (auto simp: chunked_exec_def c_task_done_def split: task.splits)
qed

lemma chunked_run_keepalive:
  "c_timeout self = c_keepalive_timeout self \<Longrightarrow> chunked_run self ops = Some s' \<Longrightarrow>
     c_timeout s' = c_keepalive_timeout self \<and> c_keepalive_timeout s' = c_keepalive_timeout self"
proof (induction ops arbitrary: self)
  case Nil
  then show ?case by simp
next
  case (Cons a ops)
  from Cons.prems(2) obtain s1 where e: "chunked_exec self a = Some s1"
    and r: "chunked_run s1 ops = Some s'"
    by (auto split: option.splits)
  from chunked_exec_fields [OF e] Cons.prems(1)
  have "c_timeout s1 = c_keepalive_timeout s1" "c_keepalive_timeout s1 = c_keepalive_timeout self"
    by auto
  with Cons.IH [OF _ r] show ?case by simp
qed

text \<open>A call that has to wait: the event queue is empty and open and the task runs.\<close>

lemma chunked_anext_sends:
  assumes "c_suspends self" "c_task self = Running"
  shows "chunked_anext self (Sends d ev) =
    (if 0 < c_timeout self \<and> \<not> d < c_timeout self
     then Some (Inl (TimeoutError ''synthesis timed out''), self)
     else Some (Inr ev, self\<lparr>c_timeout := c_keepalive_timeout self\<rparr>))"
  using assms by (simp add: chunked_defs chan_defs Let_def)

lemma chunked_anext_silent:
  assumes "c_suspends self"
  shows "chunked_anext self Silent =
    (if 0 < c_timeout self then Some (Inl (TimeoutError ''synthesis timed out''), self) else None)"
  using assms by (simp add: chunked_defs chan_defs Let_def split: task.splits)

lemma chunked_anext_finishes:
  assumes "c_suspends self" "c_task self = Running"
  shows "chunked_anext self (Finishes d oc) =
    (if 0 < c_timeout self \<and> \<not> d < c_timeout self
     then Some (Inl (TimeoutError ''synthesis timed out''), self)
     else Some (Inl StopAsyncIteration, self\<lparr>c_event_ch := chan_close (c_event_ch self), c_task := Done oc\<rparr>))"
  using assms by (simp add: chunked_defs chan_defs Let_def)

lemma synthesize_anext_keepalive:
  "synthesize_anext self mv = Some (r, s') \<Longrightarrow> s_keepalive_timeout s' = s_keepalive_timeout self \<and> s_connect_timeout s' = s_connect_timeout self"
  by (auto simp: synthesize_anext_def s_deliver_def Let_def split: if_splits option.splits sum.splits prod.splits)

lemma synthesize_anext_event_timeout:
  "synthesize_anext self mv = Some (Inr ev, s') \<Longrightarrow> s_timeout s' = s_keepalive_timeout self"
  by (auto simp: synthesize_anext_def s_deliver_def Let_def split: if_splits option.splits sum.splits prod.splits)

lemma synthesize_anext_error_timeout:
  "synthesize_anext self mv = Some (Inl e, s') \<Longrightarrow> s_timeout s' = s_timeout self"
  by (auto simp: synthesize_anext_def s_deliver_def Let_def split: if_splits option.splits sum.splits prod.splits)

lemma synthesize_anext_timeout_cases:
  "synthesize_anext self mv = Some (r, s') \<Longrightarrow> s_timeout s' = s_timeout self \<or> s_timeout s' = s_keepalive_timeout self"
  by (cases r) (auto dest: synthesize_anext_event_timeout synthesize_anext_error_timeout)

lemma synthesize_anext_sends:
  assumes "s_suspends self" "s_task self = Running"
  shows "synthesize_anext self (Sends d ev) =
    (if 0 < s_timeout self \<and> \<not> d < s_timeout self
     then Some (Inl (TimeoutError ''synthesis timed out''), self)
     else Some (Inr ev, self\<lparr>s_timeout := s_keepalive_timeout self\<rparr>))"
  using assms by (simp add: synthesize_defs chan_defs Let_def)

lemma synthesize_anext_silent:
  assumes "s_suspends self"
  shows "synthesize_anext self Silent =
    (if 0 < s_timeout self then Some (Inl (TimeoutError ''synthesis timed out''), self) else None)"
  using assms by (simp add: synthesize_defs chan_defs Let_def split: task.splits)

lemma synthesize_anext_finishes:
  assumes "s_suspends self" "s_task self = Running"
  shows "synthesize_anext self (Finishes d oc) =
    (if 0 < s_timeout self \<and> \<not> d < s_timeout self
     then Some (Inl (TimeoutError ''synthesis timed out''), self)
     else Some (Inl StopAsyncIteration, self\<lparr>s_event_ch := chan_close (s_event_ch self), s_task := Done oc\<rparr>))"
  using assms by (simp add: synthesize_defs chan_defs Let_def)

lemma synthesize_exec_fields:
  assumes "synthesize_exec self a = Some s'"
  shows "s_keepalive_timeout s' = s_keepalive_timeout self \<and>
     (s_timeout s' = s_timeout self \<or> s_timeout s' = s_keepalive_timeout self)"
proof (cases a)
  case (S_anext mv)
  with assms show ?thesis
    by (auto simp: synthesize_exec_def dest: synthesize_anext_keepalive synthesize_anext_timeout_cases)
next
  case (S_push_text token)
  with assms show ?thesis
    by (auto simp: synthesize_exec_def push_text_def split: sum.splits)
next
  case S_flush
  with assms show ?thesis
    by (auto simp: synthesize_exec_def flush_def split: sum.splits)
next
  case S_end_input
  with assms show ?thesis
    by (auto simp: synthesize_exec_def end_input_def flush_def split: sum.splits)
next
  case S_aclose
  with assms show ?thesis
    by (auto simp: synthesize_exec_def synthesize_aclose_def gracefully_cancel_def s_task_done_def Let_def split: task.splits)
next
  case (S_task_send ev)
  with assms show ?thesis
    by (auto simp: synthesize_exec_def s_task_send_def split: task.splits sum.splits)
next
  case S_task_recv
  with assms show ?thesis
    by (auto simp: synthesize_exec_def s_task_recv_def split: task.splits)
next
  case (S_task_done oc)
  with assms show ?thesis
    by (auto simp: synthesize_exec_def s_task_done_def split: task.splits)
qed

lemma synthesize_run_keepalive:
  "s_timeout self = s_keepalive_timeout self \<Longrightarrow> synthesize_run self ops = Some s' \<Longrightarrow>
     s_timeout s' = s_keepalive_timeout self \<and> s_keepalive_timeout s' = s_keepalive_timeout self"
proof (induction ops arbitrary: self)
  case Nil
  then show ?case by simp
next
  case (Cons a ops)
  from Cons.prems(2) obtain s1 where e: "synthesize_exec self a = Some s1"
    and r: "synthesize_run s1 ops = Some s'"
    by (auto split: option.splits)
  from synthesize_exec_fields [OF e] Cons.prems(1)
  have "s_timeout s1 = s_keepalive_timeout s1" "s_keepalive_timeout s1 = s_keepalive_timeout self"
    by auto
  with Cons.IH [OF _ r] show ?case by simp
qed

lemma chunked_fresh: "c_suspends (ChunkedStream ct kt)" "c_task (ChunkedStream ct kt) = Running"
  "c_timeout (ChunkedStream ct kt) = ct" "c_keepalive_timeout (ChunkedStream ct kt) = kt"
  by (simp_all add: ChunkedStream_def c_suspends_def Chan_def)

lemma synthesize_fresh: "s_suspends (SynthesizeStream m n ct kt)" "s_task (SynthesizeStream m n ct kt) = Running"
  "s_timeout (SynthesizeStream m n ct kt) = ct" "s_keepalive_timeout (SynthesizeStream m n ct kt) = kt"
  by (simp_all add: SynthesizeStream_def s_suspends_def Chan_def)

lemma chunked_later:
  assumes "chunked_anext cs mv = Some (Inr ev1, cs1)" "chunked_run cs1 ops = Some cs2"
  shows "c_timeout cs2 = c_keepalive_timeout cs" "c_keepalive_timeout cs2 = c_keepalive_timeout cs"
  using chunked_run_keepalive [OF _ assms(2)] chunked_anext_event_timeout [OF assms(1)]
    chunked_anext_keepalive [OF assms(1)] by simp_all

lemma synthesize_later:
  assumes "synthesize_anext cs mv = Some (Inr ev1, cs1)" "synthesize_run cs1 ops = Some cs2"
  shows "s_timeout cs2 = s_keepalive_timeout cs" "s_keepalive_timeout cs2 = s_keepalive_timeout cs"
  using synthesize_run_keepalive [OF _ assms(2)] synthesize_anext_event_timeout [OF assms(1)]
    synthesize_anext_keepalive [OF assms(1)] by simp_all

text \<open>Only a call of \<^verbatim>\<open>__anext__\<close> writes the active timeout.\<close>

lemma synthesize_exec_no_anext:
  assumes "synthesize_exec self a = Some s'" "\<forall>mv. a \<noteq> S_anext mv"
  shows "s_timeout s' = s_timeout self \<and> s_keepalive_timeout s' = s_keepalive_timeout self"
  using assms
  by (cases a)
     (auto simp: synthesize_exec_def push_text_def flush_def end_input_def synthesize_aclose_def
        gracefully_cancel_def s_task_done_def s_task_send_def s_task_recv_def Let_def
        split: sum.splits task.splits)

lemma synthesize_run_no_anext:
  "synthesize_run self ops = Some s' \<Longrightarrow> \<forall>mv. S_anext mv \<notin> set ops \<Longrightarrow>
     s_timeout s' = s_timeout self \<and> s_keepalive_timeout s' = s_keepalive_timeout self"
proof (induction ops arbitrary: self)
  case Nil
  then show ?case by simp
next
  case (Cons a ops)
  from Cons.prems(1) obtain s1 where e: "synthesize_exec self a = Some s1"
    and r: "synthesize_run s1 ops = Some s'"
    by (auto split: option.splits)
  from Cons.prems(2) have na: "\<forall>mv. a \<noteq> S_anext mv" and nr: "\<forall>mv. S_anext mv \<notin> set ops"
    by auto
  from synthesize_exec_no_anext [OF e na] Cons.IH [OF r nr] show ?case by simp
qed

lemma chunked_exec_no_anext:
  assumes "chunked_exec self a = Some s'" "\<forall>mv. a \<noteq> C_anext mv" "\<forall>mvs. a \<noteq> C_collect mvs"
  shows "c_timeout s' = c_timeout self \<and> c_keepalive_timeout s' = c_keepalive_timeout self"
  using assms
  by (cases a)
     (auto simp: chunked_exec_def chunked_aclose_def gracefully_cancel_def c_task_done_def
        c_task_send_def Let_def split: sum.splits task.splits)

lemma chunked_run_no_anext:
  "chunked_run self ops = Some s' \<Longrightarrow>
   \<forall>mv. C_anext mv \<notin> set ops \<Longrightarrow> \<forall>mvs. C_collect mvs \<notin> set ops \<Longrightarrow>
     c_timeout s' = c_timeout self \<and> c_keepalive_timeout s' = c_keepalive_timeout self"
proof (induction ops arbitrary: self)
  case Nil
  then show ?case by simp
next
  case (Cons a ops)
  from Cons.prems(1) obtain s1 where e: "chunked_exec self a = Some s1"
    and r: "chunked_run s1 ops = Some s'"
    by (auto split: option.splits)
  from Cons.prems(2,3) have na: "\<forall>mv. a \<noteq> C_anext mv" "\<forall>mvs. a \<noteq> C_collect mvs"
    and nr: "\<forall>mv. C_anext mv \<notin> set ops" "\<forall>mvs. C_collect mvs \<notin> set ops"
    by auto
  from chunked_exec_no_anext [OF e na] Cons.IH [OF r nr] show ?case by simp
qed

lemma chunked_first:
  assumes "chunked_run (ChunkedStream ct kt) ops = Some cs0"
    "\<forall>mv. C_anext mv \<notin> set ops" "\<forall>mvs. C_collect mvs \<notin> set ops"
  shows "c_timeout cs0 = ct" "c_keepalive_timeout cs0 = kt"
  using chunked_run_no_anext [OF assms] by (simp_all add: chunked_fresh)

lemma synthesize_first:
  assumes "synthesize_run (SynthesizeStream m n ct kt) ops = Some ss0"
    "\<forall>mv. S_anext mv \<notin> set ops"
  shows "s_timeout ss0 = ct" "s_keepalive_timeout ss0 = kt"
  using synthesize_run_no_anext [OF assms] by (simp_all add: synthesize_fresh)

subsection \<open>Connect timeout first, keepalive timeout afterwards\<close>

text \<open>
  C1. For a ChunkedStream and for a SynthesizeStream alike. Take a stream on which
  \<^verbatim>\<open>__anext__\<close> has not been called yet, whatever else has been done to it since it was
  constructed (text pushed, flushed, input ended). Its first call of \<^verbatim>\<open>__anext__\<close>, when it
  has to wait, waits at most \<open>connect_timeout\<close>: an event sent before it is returned, an
  event sent after it, or a silent task, gives the timeout error. Once a call has
  returned an event, every later call that has to wait, after any operations in between,
  waits at most \<open>keepalive_timeout\<close> in the same sense. A timeout of zero or less disables
  the limit: an event is returned however late it is sent, and with a silent task the
  call never returns.
\<close>

theorem C1_connect_then_keepalive:
  "(chunked_run (ChunkedStream ct kt) cpre = Some cnew \<and> (\<forall>mv. C_anext mv \<notin> set cpre) \<and> (\<forall>mvs. C_collect mvs \<notin> set cpre)
        \<and> c_suspends cnew \<and> c_task cnew = Running \<longrightarrow>
      (0 < ct \<and> d < ct \<longrightarrow>
         chunked_anext cnew (Sends d ev) = Some (Inr ev, cnew\<lparr>c_timeout := kt\<rparr>))
      \<and> (0 < ct \<and> ct < d \<longrightarrow>
         chunked_anext cnew (Sends d ev) = Some (Inl (TimeoutError ''synthesis timed out''), cnew))
      \<and> (0 < ct \<longrightarrow>
         chunked_anext cnew Silent = Some (Inl (TimeoutError ''synthesis timed out''), cnew))
      \<and> (ct \<le> 0 \<longrightarrow>
         chunked_anext cnew (Sends d ev) = Some (Inr ev, cnew\<lparr>c_timeout := kt\<rparr>)
         \<and> chunked_anext cnew Silent = None))
   \<and> (chunked_anext cs mv = Some (Inr ev1, cs1) \<and> chunked_run cs1 cops = Some cs2
        \<and> c_suspends cs2 \<and> c_task cs2 = Running \<longrightarrow>
      (0 < c_keepalive_timeout cs \<and> d < c_keepalive_timeout cs \<longrightarrow>
         chunked_anext cs2 (Sends d ev) = Some (Inr ev, cs2))
      \<and> (0 < c_keepalive_timeout cs \<and> c_keepalive_timeout cs < d \<longrightarrow>
         chunked_anext cs2 (Sends d ev) = Some (Inl (TimeoutError ''synthesis timed out''), cs2))
      \<and> (0 < c_keepalive_timeout cs \<longrightarrow>
         chunked_anext cs2 Silent = Some (Inl (TimeoutError ''synthesis timed out''), cs2))
      \<and> (c_keepalive_timeout cs \<le> 0 \<longrightarrow>
         chunked_anext cs2 (Sends d ev) = Some (Inr ev, cs2) \<and> chunked_anext cs2 Silent = None))
   \<and> (synthesize_run (SynthesizeStream m n ct kt) spre = Some snew \<and> (\<forall>mv. S_anext mv \<notin> set spre)
        \<and> s_suspends snew \<and> s_task snew = Running \<longrightarrow>
      (0 < ct \<and> d < ct \<longrightarrow>
         synthesize_anext snew (Sends d ev) = Some (Inr ev, snew\<lparr>s_timeout := kt\<rparr>))
      \<and> (0 < ct \<and> ct < d \<longrightarrow>
         synthesize_anext snew (Sends d ev) = Some (Inl (TimeoutError ''synthesis timed out''), snew))
      \<and> (0 < ct \<longrightarrow>
         synthesize_anext snew Silent = Some (Inl (TimeoutError ''synthesis timed out''), snew))
      \<and> (ct \<le> 0 \<longrightarrow>
         synthesize_anext snew (Sends d ev) = Some (Inr ev, snew\<lparr>s_timeout := kt\<rparr>)
         \<and> synthesize_anext snew Silent = None))
   \<and> (synthesize_anext ss mv = Some (Inr ev1, ss1) \<and> synthesize_run ss1 sops = Some ss2
        \<and> s_suspends ss2 \<and> s_task ss2 = Running \<longrightarrow>
      (0 < s_keepalive_timeout ss \<and> d < s_keepalive_timeout ss \<longrightarrow>
         synthesize_anext ss2 (Sends d ev) = Some (Inr ev, ss2))
      \<and> (0 < s_keepalive_timeout ss \<and> s_keepalive_timeout ss < d \<longrightarrow>
         synthesize_anext ss2 (Sends d ev) = Some (Inl (TimeoutError ''synthesis timed out''), ss2))
      \<and> (0 < s_keepalive_timeout ss \<longrightarrow>
         synthesize_anext ss2 Silent = Some (Inl (TimeoutError ''synthesis timed out''), ss2))
      \<and> (s_keepalive_timeout ss \<le> 0 \<longrightarrow>
         synthesize_anext ss2 (Sends d ev) = Some (Inr ev, ss2) \<and> synthesize_anext ss2 Silent = None))"
proof -
  have c_first: "chunked_anext cnew (Sends d ev) =
      (if 0 < ct \<and> \<not> d < ct
       then Some (Inl (TimeoutError ''synthesis timed out''), cnew)
       else Some (Inr ev, cnew\<lparr>c_timeout := kt\<rparr>))"
    "chunked_anext cnew Silent =
      (if 0 < ct then Some (Inl (TimeoutError ''synthesis timed out''), cnew) else None)"
    if "chunked_run (ChunkedStream ct kt) cpre = Some cnew"
      "\<forall>mv. C_anext mv \<notin> set cpre" "\<forall>mvs. C_collect mvs \<notin> set cpre"
      "c_suspends cnew" "c_task cnew = Running"
    using that(4,5) chunked_first [OF that(1,2,3)]
    by (simp_all add: chunked_anext_sends chunked_anext_silent)
  have s_first: "synthesize_anext snew (Sends d ev) =
      (if 0 < ct \<and> \<not> d < ct
       then Some (Inl (TimeoutError ''synthesis timed out''), snew)
       else Some (Inr ev, snew\<lparr>s_timeout := kt\<rparr>))"
    "synthesize_anext snew Silent =
      (if 0 < ct then Some (Inl (TimeoutError ''synthesis timed out''), snew) else None)"
    if "synthesize_run (SynthesizeStream m n ct kt) spre = Some snew"
      "\<forall>mv. S_anext mv \<notin> set spre" "s_suspends snew" "s_task snew = Running"
    using that(3,4) synthesize_first [OF that(1,2)]
    by (simp_all add: synthesize_anext_sends synthesize_anext_silent)
  have c_later: "chunked_anext cs2 (Sends d ev) =
      (if 0 < c_keepalive_timeout cs \<and> \<not> d < c_keepalive_timeout cs
       then Some (Inl (TimeoutError ''synthesis timed out''), cs2) else Some (Inr ev, cs2))"
    "chunked_anext cs2 Silent =
      (if 0 < c_keepalive_timeout cs then Some (Inl (TimeoutError ''synthesis timed out''), cs2)
       else None)"
    if "chunked_anext cs mv = Some (Inr ev1, cs1)" "chunked_run cs1 cops = Some cs2"
      "c_suspends cs2" "c_task cs2 = Running"
    using that chunked_later [OF that(1,2)]
    by (simp_all add: chunked_anext_sends chunked_anext_silent)
  have s_later: "synthesize_anext ss2 (Sends d ev) =
      (if 0 < s_keepalive_timeout ss \<and> \<not> d < s_keepalive_timeout ss
       then Some (Inl (TimeoutError ''synthesis timed out''), ss2) else Some (Inr ev, ss2))"
    "synthesize_anext ss2 Silent =
      (if 0 < s_keepalive_timeout ss then Some (Inl (TimeoutError ''synthesis timed out''), ss2)
       else None)"
    if "synthesize_anext ss mv = Some (Inr ev1, ss1)" "synthesize_run ss1 sops = Some ss2"
      "s_suspends ss2" "s_task ss2 = Running"
    using that synthesize_later [OF that(1,2)]
    by (simp_all add: synthesize_anext_sends synthesize_anext_silent)
  show ?thesis
    using c_first s_first c_later s_later by simp
qed


theorem C1_connect_then_keepalive_witness:
  "chunked_anext (ChunkedStream 1 2) (Sends (1/2) ev0) = Some (Inr ev0, ((ChunkedStream 1 2)\<lparr>c_timeout := 2\<rparr>))
   \<and> chunked_anext (ChunkedStream 1 2) Silent = Some (Inl (TimeoutError ''synthesis timed out''), (ChunkedStream 1 2))
   \<and> chunked_anext (ChunkedStream 1 2) (Sends 3 ev0) = Some (Inl (TimeoutError ''synthesis timed out''), (ChunkedStream 1 2))
   \<and> chunked_anext (ChunkedStream 0 0) (Sends 3 ev0) = Some (Inr ev0, (ChunkedStream 0 0))
   \<and> chunked_anext (ChunkedStream 0 0) Silent = None
   \<and> chunked_anext ((ChunkedStream 1 2)\<lparr>c_timeout := 2\<rparr>) (Sends (1/2) ev0) = Some (Inr ev0, ((ChunkedStream 1 2)\<lparr>c_timeout := 2\<rparr>))
   \<and> chunked_anext ((ChunkedStream 1 2)\<lparr>c_timeout := 2\<rparr>) Silent = Some (Inl (TimeoutError ''synthesis timed out''), ((ChunkedStream 1 2)\<lparr>c_timeout := 2\<rparr>))
   \<and> chunked_anext ((ChunkedStream 1 2)\<lparr>c_timeout := 2\<rparr>) (Sends 3 ev0) = Some (Inl (TimeoutError ''synthesis timed out''), ((ChunkedStream 1 2)\<lparr>c_timeout := 2\<rparr>))
   \<and> synthesize_run (SynthesizeStream ''m'' ''S'' 1 2) [S_push_text ''hi'', S_flush] = Some ((SynthesizeStream ''m'' ''S'' 1 2)\<lparr>s_input_ch := \<lparr>queue = [Token ''hi'', FlushSentinel], closed = False\<rparr>\<rparr>)
   \<and> synthesize_anext ((SynthesizeStream ''m'' ''S'' 1 2)\<lparr>s_input_ch := \<lparr>queue = [Token ''hi'', FlushSentinel], closed = False\<rparr>\<rparr>) (Sends (1/2) ev0) = Some (Inr ev0, ((SynthesizeStream ''m'' ''S'' 1 2)\<lparr>s_input_ch := \<lparr>queue = [Token ''hi'', FlushSentinel], closed = False\<rparr>, s_timeout := 2\<rparr>))
   \<and> synthesize_anext ((SynthesizeStream ''m'' ''S'' 1 2)\<lparr>s_input_ch := \<lparr>queue = [Token ''hi'', FlushSentinel], closed = False\<rparr>\<rparr>) Silent = Some (Inl (TimeoutError ''synthesis timed out''), ((SynthesizeStream ''m'' ''S'' 1 2)\<lparr>s_input_ch := \<lparr>queue = [Token ''hi'', FlushSentinel], closed = False\<rparr>\<rparr>))
   \<and> synthesize_anext ((SynthesizeStream ''m'' ''S'' 1 2)\<lparr>s_input_ch := \<lparr>queue = [Token ''hi'', FlushSentinel], closed = False\<rparr>\<rparr>) (Sends 3 ev0) = Some (Inl (TimeoutError ''synthesis timed out''), ((SynthesizeStream ''m'' ''S'' 1 2)\<lparr>s_input_ch := \<lparr>queue = [Token ''hi'', FlushSentinel], closed = False\<rparr>\<rparr>))
   \<and> synthesize_anext ((SynthesizeStream ''m'' ''S'' 0 0)\<lparr>s_input_ch := \<lparr>queue = [Token ''hi'', FlushSentinel], closed = False\<rparr>\<rparr>) (Sends 3 ev0) = Some (Inr ev0, ((SynthesizeStream ''m'' ''S'' 0 0)\<lparr>s_input_ch := \<lparr>queue = [Token ''hi'', FlushSentinel], closed = False\<rparr>\<rparr>))
   \<and> synthesize_anext ((SynthesizeStream ''m'' ''S'' 0 0)\<lparr>s_input_ch := \<lparr>queue = [Token ''hi'', FlushSentinel], closed = False\<rparr>\<rparr>) Silent = None
   \<and> synthesize_anext ((SynthesizeStream ''m'' ''S'' 1 2)\<lparr>s_timeout := 2\<rparr>) (Sends (1/2) ev0) = Some (Inr ev0, ((SynthesizeStream ''m'' ''S'' 1 2)\<lparr>s_timeout := 2\<rparr>))
   \<and> synthesize_anext ((SynthesizeStream ''m'' ''S'' 1 2)\<lparr>s_timeout := 2\<rparr>) Silent = Some (Inl (TimeoutError ''synthesis timed out''), ((SynthesizeStream ''m'' ''S'' 1 2)\<lparr>s_timeout := 2\<rparr>))
   \<and> synthesize_anext ((SynthesizeStream ''m'' ''S'' 1 2)\<lparr>s_timeout := 2\<rparr>) (Sends 3 ev0) = Some (Inl (TimeoutError ''synthesis timed out''), ((SynthesizeStream ''m'' ''S'' 1 2)\<lparr>s_timeout := 2\<rparr>))"
proof -
  let ?c = "ChunkedStream 1 2" and ?c' = "(ChunkedStream 1 2)\<lparr>c_timeout := 2\<rparr>"
  let ?off = "ChunkedStream 0 0"
  let ?s = "SynthesizeStream ''m'' ''S'' 1 2"
  let ?s' = "(SynthesizeStream ''m'' ''S'' 1 2)\<lparr>s_timeout := 2\<rparr>"
  let ?soff = "SynthesizeStream ''m'' ''S'' 0 0"
  let ?pre = "[S_push_text ''hi'', S_flush]"
  let ?fed = "(SynthesizeStream ''m'' ''S'' 1 2)\<lparr>s_input_ch := \<lparr>queue = [Token ''hi'', FlushSentinel], closed = False\<rparr>\<rparr>"
  let ?fedoff = "(SynthesizeStream ''m'' ''S'' 0 0)\<lparr>s_input_ch := \<lparr>queue = [Token ''hi'', FlushSentinel], closed = False\<rparr>\<rparr>"
  have c_new: "chunked_run ?c [] = Some ?c \<and> (\<forall>mv. C_anext mv \<notin> set [])
      \<and> (\<forall>mvs. C_collect mvs \<notin> set []) \<and> c_suspends ?c \<and> c_task ?c = Running"
    and c_new_off: "chunked_run ?off [] = Some ?off \<and> (\<forall>mv. C_anext mv \<notin> set [])
      \<and> (\<forall>mvs. C_collect mvs \<notin> set []) \<and> c_suspends ?off \<and> c_task ?off = Running"
    by (simp_all add: chunked_defs chan_defs)
  have c_after: "chunked_anext ?c (Sends (1/2) ev0) = Some (Inr ev0, ?c')
      \<and> chunked_run ?c' [C_anext (Sends 5 ev0)] = Some ?c'
      \<and> c_suspends ?c' \<and> c_task ?c' = Running"
    by (simp add: chunked_exec_def chunked_defs chan_defs Let_def)
  have s_new: "synthesize_run ?s ?pre = Some ?fed \<and> (\<forall>mv. S_anext mv \<notin> set ?pre)
      \<and> s_suspends ?fed \<and> s_task ?fed = Running"
    and s_new_off: "synthesize_run ?soff ?pre = Some ?fedoff \<and> (\<forall>mv. S_anext mv \<notin> set ?pre)
      \<and> s_suspends ?fedoff \<and> s_task ?fedoff = Running"
    by (simp_all add: synthesize_exec_def synthesize_defs chan_defs)
  have s_after: "synthesize_anext ?s (Sends (1/2) ev0) = Some (Inr ev0, ?s')
      \<and> synthesize_run ?s' [S_anext (Sends 5 ev0)] = Some ?s'
      \<and> s_suspends ?s' \<and> s_task ?s' = Running"
    by (simp add: synthesize_exec_def synthesize_defs chan_defs Let_def)
  have k: "c_keepalive_timeout ?c = 2" "s_keepalive_timeout ?s = 2"
    "?off\<lparr>c_timeout := 0\<rparr> = ?off" "?fedoff\<lparr>s_timeout := 0\<rparr> = ?fedoff"
    by (simp_all add: ChunkedStream_def SynthesizeStream_def)
  have cf_early: "chunked_anext (ChunkedStream 1 2) (Sends (1/2) ev0) = Some (Inr ev0, ((ChunkedStream 1 2)\<lparr>c_timeout := 2\<rparr>))
    \<and> chunked_anext (ChunkedStream 1 2) Silent = Some (Inl (TimeoutError ''synthesis timed out''), (ChunkedStream 1 2))"
    using C1_connect_then_keepalive [where ct = 1 and kt = 2 and d = "1/2" and ev = ev0
        and cpre = "[]" and cnew = ?c, THEN conjunct1, THEN mp, OF c_new]
    by simp
  have cf_late: "chunked_anext (ChunkedStream 1 2) (Sends 3 ev0) = Some (Inl (TimeoutError ''synthesis timed out''), (ChunkedStream 1 2))"
    using C1_connect_then_keepalive [where ct = 1 and kt = 2 and d = 3 and ev = ev0
        and cpre = "[]" and cnew = ?c, THEN conjunct1, THEN mp, OF c_new]
    by simp
  have cf_off: "chunked_anext (ChunkedStream 0 0) (Sends 3 ev0) = Some (Inr ev0, (ChunkedStream 0 0))
    \<and> chunked_anext (ChunkedStream 0 0) Silent = None"
    using C1_connect_then_keepalive [where ct = 0 and kt = 0 and d = 3 and ev = ev0
        and cpre = "[]" and cnew = ?off, THEN conjunct1, THEN mp, OF c_new_off] k(3)
    by simp
  have cl_early: "chunked_anext ((ChunkedStream 1 2)\<lparr>c_timeout := 2\<rparr>) (Sends (1/2) ev0) = Some (Inr ev0, ((ChunkedStream 1 2)\<lparr>c_timeout := 2\<rparr>))
    \<and> chunked_anext ((ChunkedStream 1 2)\<lparr>c_timeout := 2\<rparr>) Silent = Some (Inl (TimeoutError ''synthesis timed out''), ((ChunkedStream 1 2)\<lparr>c_timeout := 2\<rparr>))"
    using C1_connect_then_keepalive [where d = "1/2" and ev = ev0 and cs = ?c
        and mv = "Sends (1/2) ev0" and ?ev1.0 = ev0 and ?cs1.0 = ?c'
        and cops = "[C_anext (Sends 5 ev0)]" and ?cs2.0 = ?c',
        THEN conjunct2, THEN conjunct1, THEN mp, OF c_after] k(1)
    by simp
  have cl_late: "chunked_anext ((ChunkedStream 1 2)\<lparr>c_timeout := 2\<rparr>) (Sends 3 ev0) = Some (Inl (TimeoutError ''synthesis timed out''), ((ChunkedStream 1 2)\<lparr>c_timeout := 2\<rparr>))"
    using C1_connect_then_keepalive [where d = 3 and ev = ev0 and cs = ?c
        and mv = "Sends (1/2) ev0" and ?ev1.0 = ev0 and ?cs1.0 = ?c'
        and cops = "[C_anext (Sends 5 ev0)]" and ?cs2.0 = ?c',
        THEN conjunct2, THEN conjunct1, THEN mp, OF c_after] k(1)
    by simp
  have sf_run: "synthesize_run ?s ?pre = Some ?fed"
    using s_new by blast
  have sf_early: "synthesize_anext ((SynthesizeStream ''m'' ''S'' 1 2)\<lparr>s_input_ch := \<lparr>queue = [Token ''hi'', FlushSentinel], closed = False\<rparr>\<rparr>) (Sends (1/2) ev0) = Some (Inr ev0, ((SynthesizeStream ''m'' ''S'' 1 2)\<lparr>s_input_ch := \<lparr>queue = [Token ''hi'', FlushSentinel], closed = False\<rparr>, s_timeout := 2\<rparr>))
    \<and> synthesize_anext ((SynthesizeStream ''m'' ''S'' 1 2)\<lparr>s_input_ch := \<lparr>queue = [Token ''hi'', FlushSentinel], closed = False\<rparr>\<rparr>) Silent = Some (Inl (TimeoutError ''synthesis timed out''), ((SynthesizeStream ''m'' ''S'' 1 2)\<lparr>s_input_ch := \<lparr>queue = [Token ''hi'', FlushSentinel], closed = False\<rparr>\<rparr>))"
    using C1_connect_then_keepalive [where ct = 1 and kt = 2 and d = "1/2" and ev = ev0
        and m = "''m''" and n = "''S''" and spre = ?pre and snew = ?fed,
        THEN conjunct2, THEN conjunct2, THEN conjunct1, THEN mp, OF s_new]
    by simp
  have sf_late: "synthesize_anext ((SynthesizeStream ''m'' ''S'' 1 2)\<lparr>s_input_ch := \<lparr>queue = [Token ''hi'', FlushSentinel], closed = False\<rparr>\<rparr>) (Sends 3 ev0) = Some (Inl (TimeoutError ''synthesis timed out''), ((SynthesizeStream ''m'' ''S'' 1 2)\<lparr>s_input_ch := \<lparr>queue = [Token ''hi'', FlushSentinel], closed = False\<rparr>\<rparr>))"
    using C1_connect_then_keepalive [where ct = 1 and kt = 2 and d = 3 and ev = ev0
        and m = "''m''" and n = "''S''" and spre = ?pre and snew = ?fed,
        THEN conjunct2, THEN conjunct2, THEN conjunct1, THEN mp, OF s_new]
    by simp
  have sf_off: "synthesize_anext ((SynthesizeStream ''m'' ''S'' 0 0)\<lparr>s_input_ch := \<lparr>queue = [Token ''hi'', FlushSentinel], closed = False\<rparr>\<rparr>) (Sends 3 ev0) = Some (Inr ev0, ((SynthesizeStream ''m'' ''S'' 0 0)\<lparr>s_input_ch := \<lparr>queue = [Token ''hi'', FlushSentinel], closed = False\<rparr>\<rparr>))
    \<and> synthesize_anext ((SynthesizeStream ''m'' ''S'' 0 0)\<lparr>s_input_ch := \<lparr>queue = [Token ''hi'', FlushSentinel], closed = False\<rparr>\<rparr>) Silent = None"
    using C1_connect_then_keepalive [where ct = 0 and kt = 0 and d = 3 and ev = ev0
        and m = "''m''" and n = "''S''" and spre = ?pre and snew = ?fedoff,
        THEN conjunct2, THEN conjunct2, THEN conjunct1, THEN mp, OF s_new_off] k(4)
    by simp
  have sl_early: "synthesize_anext ((SynthesizeStream ''m'' ''S'' 1 2)\<lparr>s_timeout := 2\<rparr>) (Sends (1/2) ev0) = Some (Inr ev0, ((SynthesizeStream ''m'' ''S'' 1 2)\<lparr>s_timeout := 2\<rparr>))
    \<and> synthesize_anext ((SynthesizeStream ''m'' ''S'' 1 2)\<lparr>s_timeout := 2\<rparr>) Silent = Some (Inl (TimeoutError ''synthesis timed out''), ((SynthesizeStream ''m'' ''S'' 1 2)\<lparr>s_timeout := 2\<rparr>))"
    using C1_connect_then_keepalive [where d = "1/2" and ev = ev0 and ss = ?s
        and mv = "Sends (1/2) ev0" and ?ev1.0 = ev0 and ?ss1.0 = ?s'
        and sops = "[S_anext (Sends 5 ev0)]" and ?ss2.0 = ?s',
        THEN conjunct2, THEN conjunct2, THEN conjunct2, THEN mp, OF s_after] k(2)
    by simp
  have sl_late: "synthesize_anext ((SynthesizeStream ''m'' ''S'' 1 2)\<lparr>s_timeout := 2\<rparr>) (Sends 3 ev0) = Some (Inl (TimeoutError ''synthesis timed out''), ((SynthesizeStream ''m'' ''S'' 1 2)\<lparr>s_timeout := 2\<rparr>))"
    using C1_connect_then_keepalive [where d = 3 and ev = ev0 and ss = ?s
        and mv = "Sends (1/2) ev0" and ?ev1.0 = ev0 and ?ss1.0 = ?s'
        and sops = "[S_anext (Sends 5 ev0)]" and ?ss2.0 = ?s',
        THEN conjunct2, THEN conjunct2, THEN conjunct2, THEN mp, OF s_after] k(2)
    by simp
  show ?thesis
    using cf_early cf_late cf_off cl_early cl_late sf_run sf_early sf_late sf_off sl_early sl_late by blast
qed

subsection \<open>A call that times out\<close>

text \<open>
  The timeout error comes from one place, the \<^verbatim>\<open>except\<close> branch around
  \<^verbatim>\<open>asyncio.wait_for\<close>; nothing has been written to the stream when it is raised.
\<close>

lemma chunked_anext_timed_out:
  "chunked_anext cs mv = Some (Inl (TimeoutError msg), cs') \<Longrightarrow>
     cs' = cs \<and> 0 < c_timeout cs \<and> msg = ''synthesis timed out''"
  by (auto simp: chunked_anext_def c_deliver_def event_ch_anext_def receive_def wait_for_def Let_def
      split: if_splits option.splits sum.splits prod.splits list.splits task.splits move.splits)

lemma synthesize_anext_timed_out:
  "synthesize_anext cs mv = Some (Inl (TimeoutError msg), cs') \<Longrightarrow>
     cs' = cs \<and> 0 < s_timeout cs \<and> msg = ''synthesis timed out''"
  by (auto simp: synthesize_anext_def s_deliver_def event_ch_anext_def receive_def wait_for_def Let_def
      split: if_splits option.splits sum.splits prod.splits list.splits task.splits move.splits)

text \<open>
  C10. A call of \<^verbatim>\<open>__anext__\<close> that raises leaves the active timeout as it was. If the
  first call on a new stream times out, the stream is unchanged, so a second call is
  again bounded by \<open>connect_timeout\<close>, whatever \<open>keepalive_timeout\<close> is: it returns an event
  sent before \<open>connect_timeout\<close> and times out on one sent after it.
\<close>

theorem C10_timeout_keeps_connect_timeout:
  "(chunked_anext cs mv = Some (Inl e, cs') \<longrightarrow> c_timeout cs' = c_timeout cs)
   \<and> (chunked_anext (ChunkedStream ct kt) mv = Some (Inl (TimeoutError msg), cs') \<longrightarrow>
        c_timeout cs' = ct
        \<and> (d < ct \<longrightarrow> chunked_anext cs' (Sends d ev) = Some (Inr ev, cs'\<lparr>c_timeout := kt\<rparr>))
        \<and> (ct < d \<longrightarrow> chunked_anext cs' (Sends d ev)
              = Some (Inl (TimeoutError ''synthesis timed out''), cs')))
   \<and> (synthesize_anext ss mv = Some (Inl e, ss') \<longrightarrow> s_timeout ss' = s_timeout ss)
   \<and> (synthesize_anext (SynthesizeStream m n ct kt) mv = Some (Inl (TimeoutError msg), ss') \<longrightarrow>
        s_timeout ss' = ct
        \<and> (d < ct \<longrightarrow> synthesize_anext ss' (Sends d ev) = Some (Inr ev, ss'\<lparr>s_timeout := kt\<rparr>))
        \<and> (ct < d \<longrightarrow> synthesize_anext ss' (Sends d ev)
              = Some (Inl (TimeoutError ''synthesis timed out''), ss')))"
proof -
  have c: "c_timeout cs' = ct
        \<and> (d < ct \<longrightarrow> chunked_anext cs' (Sends d ev) = Some (Inr ev, cs'\<lparr>c_timeout := kt\<rparr>))
        \<and> (ct < d \<longrightarrow> chunked_anext cs' (Sends d ev)
              = Some (Inl (TimeoutError ''synthesis timed out''), cs'))"
    if "chunked_anext (ChunkedStream ct kt) mv = Some (Inl (TimeoutError msg), cs')"
  proof -
    from chunked_anext_timed_out [OF that]
    have "cs' = ChunkedStream ct kt" "0 < ct" by (simp_all add: chunked_fresh)
    then show ?thesis by (simp add: chunked_anext_sends chunked_fresh)
  qed
  have s: "s_timeout ss' = ct
        \<and> (d < ct \<longrightarrow> synthesize_anext ss' (Sends d ev) = Some (Inr ev, ss'\<lparr>s_timeout := kt\<rparr>))
        \<and> (ct < d \<longrightarrow> synthesize_anext ss' (Sends d ev)
              = Some (Inl (TimeoutError ''synthesis timed out''), ss'))"
    if "synthesize_anext (SynthesizeStream m n ct kt) mv = Some (Inl (TimeoutError msg), ss')"
  proof -
    from synthesize_anext_timed_out [OF that]
    have "ss' = SynthesizeStream m n ct kt" "0 < ct" by (simp_all add: synthesize_fresh)
    then show ?thesis by (simp add: synthesize_anext_sends synthesize_fresh)
  qed
  show ?thesis
    using c s chunked_anext_error_timeout [of cs mv e cs']
      synthesize_anext_error_timeout [of ss mv e ss'] by blast
qed

theorem C10_timeout_keeps_connect_timeout_witness:
  "chunked_anext (ChunkedStream 1 5) (Sends 3 ev0)
     = Some (Inl (TimeoutError ''synthesis timed out''), ChunkedStream 1 5)
   \<and> c_timeout (ChunkedStream 1 5) = 1
   \<and> chunked_anext (ChunkedStream 1 5) (Sends (1/2) ev0)
     = Some (Inr ev0, (ChunkedStream 1 5)\<lparr>c_timeout := 5\<rparr>)
   \<and> synthesize_anext (SynthesizeStream ''m'' ''S'' 1 5) (Sends 3 ev0)
     = Some (Inl (TimeoutError ''synthesis timed out''), SynthesizeStream ''m'' ''S'' 1 5)
   \<and> s_timeout (SynthesizeStream ''m'' ''S'' 1 5) = 1
   \<and> synthesize_anext (SynthesizeStream ''m'' ''S'' 1 5) (Sends (1/2) ev0)
     = Some (Inr ev0, (SynthesizeStream ''m'' ''S'' 1 5)\<lparr>s_timeout := 5\<rparr>)"
proof -
  have c: "chunked_anext (ChunkedStream 1 5) (Sends 3 ev0)
     = Some (Inl (TimeoutError ''synthesis timed out''), ChunkedStream 1 5)"
    by (simp add: chunked_defs chan_defs Let_def)
  have s: "synthesize_anext (SynthesizeStream ''m'' ''S'' 1 5) (Sends 3 ev0)
     = Some (Inl (TimeoutError ''synthesis timed out''), SynthesizeStream ''m'' ''S'' 1 5)"
    by (simp add: synthesize_defs chan_defs Let_def)
  note retry_early = C10_timeout_keeps_connect_timeout [where ct = 1 and kt = 5
        and mv = "Sends 3 ev0" and msg = "''synthesis timed out''" and cs = "ChunkedStream 1 5"
        and cs' = "ChunkedStream 1 5" and e = "TimeoutError ''synthesis timed out''"
        and ss = "SynthesizeStream ''m'' ''S'' 1 5" and ss' = "SynthesizeStream ''m'' ''S'' 1 5"
        and m = "''m''" and n = "''S''" and d = "1/2" and ev = ev0]
  note retry_late = C10_timeout_keeps_connect_timeout [where ct = 1 and kt = 5
        and mv = "Sends 3 ev0" and msg = "''synthesis timed out''" and cs = "ChunkedStream 1 5"
        and cs' = "ChunkedStream 1 5" and e = "TimeoutError ''synthesis timed out''"
        and ss = "SynthesizeStream ''m'' ''S'' 1 5" and ss' = "SynthesizeStream ''m'' ''S'' 1 5"
        and m = "''m''" and n = "''S''" and d = 3 and ev = ev0]
  show ?thesis
    using retry_early retry_late c s by simp
qed

text \<open>
  C2, as the code has it. When the active timeout is positive and runs out before the
  task sends an event or ends, \<^verbatim>\<open>__anext__\<close> raises the timeout error with the message
  "synthesis timed out", and the stream is left exactly as it was: the event queue is not
  closed and the task is not cancelled. A further call therefore waits again under the
  same timeout; it does not signal the end of the stream.
\<close>

theorem C2_timeout_leaves_stream_open:
  "(c_suspends cs \<and> c_task cs = Running \<and> 0 < c_timeout cs \<and> c_timeout cs < d \<longrightarrow>
       chunked_anext cs Silent = Some (Inl (TimeoutError ''synthesis timed out''), cs)
     \<and> chunked_anext cs (Sends d ev) = Some (Inl (TimeoutError ''synthesis timed out''), cs)
     \<and> chunked_anext cs (Finishes d oc) = Some (Inl (TimeoutError ''synthesis timed out''), cs))
   \<and> (chunked_anext cs mv = Some (Inl (TimeoutError msg), cs') \<longrightarrow>
       msg = ''synthesis timed out'' \<and> cs' = cs)
   \<and> (s_suspends ss \<and> s_task ss = Running \<and> 0 < s_timeout ss \<and> s_timeout ss < d \<longrightarrow>
       synthesize_anext ss Silent = Some (Inl (TimeoutError ''synthesis timed out''), ss)
     \<and> synthesize_anext ss (Sends d ev) = Some (Inl (TimeoutError ''synthesis timed out''), ss)
     \<and> synthesize_anext ss (Finishes d oc) = Some (Inl (TimeoutError ''synthesis timed out''), ss))
   \<and> (synthesize_anext ss mv = Some (Inl (TimeoutError msg), ss') \<longrightarrow>
       msg = ''synthesis timed out'' \<and> ss' = ss)"
  using chunked_anext_timed_out [of cs mv msg cs'] synthesize_anext_timed_out [of ss mv msg ss']
  by (simp add: chunked_anext_sends chunked_anext_silent chunked_anext_finishes
      synthesize_anext_sends synthesize_anext_silent synthesize_anext_finishes)

theorem C2_timeout_leaves_stream_open_witness:
  "chunked_anext (ChunkedStream 1 1) (Sends 2 ev0)
     = Some (Inl (TimeoutError ''synthesis timed out''), ChunkedStream 1 1)
   \<and> chunked_anext (ChunkedStream 1 1) Silent
     = Some (Inl (TimeoutError ''synthesis timed out''), ChunkedStream 1 1)
   \<and> chunked_anext (ChunkedStream 1 1) (Finishes 2 Succeeded)
     = Some (Inl (TimeoutError ''synthesis timed out''), ChunkedStream 1 1)
   \<and> synthesize_anext (SynthesizeStream ''m'' ''S'' 1 1) (Sends 2 ev0)
     = Some (Inl (TimeoutError ''synthesis timed out''), SynthesizeStream ''m'' ''S'' 1 1)
   \<and> synthesize_anext (SynthesizeStream ''m'' ''S'' 1 1) Silent
     = Some (Inl (TimeoutError ''synthesis timed out''), SynthesizeStream ''m'' ''S'' 1 1)
   \<and> synthesize_anext (SynthesizeStream ''m'' ''S'' 1 1) (Finishes 2 Succeeded)
     = Some (Inl (TimeoutError ''synthesis timed out''), SynthesizeStream ''m'' ''S'' 1 1)"
  using C2_timeout_leaves_stream_open [where cs = "ChunkedStream 1 1" and d = 2 and ev = ev0
      and oc = Succeeded and ss = "SynthesizeStream ''m'' ''S'' 1 1" and mv = "Sends 2 ev0"
      and msg = "''synthesis timed out''" and cs' = "ChunkedStream 1 1"
      and ss' = "SynthesizeStream ''m'' ''S'' 1 1"]
  by (simp add: chunked_fresh synthesize_fresh)

text \<open>
  The claim as stated fails: after a first call has timed out on a new stream with both
  timeouts 1, a further call returns the event that the task sends half a time unit
  later, where the claim expects the end of the stream.
\<close>

theorem C2_further_call_counterexample:
  "chunked_anext (ChunkedStream 1 1) (Sends 2 ev0)
     = Some (Inl (TimeoutError ''synthesis timed out''), ChunkedStream 1 1)
   \<and> chunked_anext (ChunkedStream 1 1) (Sends (1/2) ev0) = Some (Inr ev0, ChunkedStream 1 1)
   \<and> chunked_anext (ChunkedStream 1 1) (Sends (1/2) ev0)
       \<noteq> Some (Inl StopAsyncIteration, ChunkedStream 1 1)"
  by (simp add: chunked_defs chan_defs Let_def)

subsection \<open>Input after the end of input, and after close\<close>

text \<open>
  No operation reopens the input queue, and none changes the class of the stream.
\<close>

lemma synthesize_exec_input_closed:
  assumes "synthesize_exec self a = Some s'"
  shows "s_cls_module s' = s_cls_module self \<and> s_cls_name s' = s_cls_name self
    \<and> (closed (s_input_ch self) \<longrightarrow> closed (s_input_ch s'))"
proof (cases a)
  case (S_anext mv)
  with assms show ?thesis
    by (auto simp: synthesize_exec_def synthesize_anext_def s_deliver_def Let_def
        split: if_splits option.splits sum.splits prod.splits)
next
  case (S_push_text token)
  with assms show ?thesis
    by (auto simp: synthesize_exec_def push_text_def check_input_not_ended_def split: sum.splits if_splits)
next
  case S_flush
  with assms show ?thesis
    by (auto simp: synthesize_exec_def flush_def check_input_not_ended_def split: sum.splits if_splits)
next
  case S_end_input
  with assms show ?thesis
    by (auto simp: synthesize_exec_def end_input_def flush_def check_input_not_ended_def
        split: sum.splits if_splits)
next
  case S_aclose
  with assms show ?thesis
    by (auto simp: synthesize_exec_def synthesize_aclose_def gracefully_cancel_def s_task_done_def chan_close_def Let_def
        split: task.splits)
next
  case (S_task_send ev)
  with assms show ?thesis
    by (auto simp: synthesize_exec_def s_task_send_def split: task.splits sum.splits)
next
  case S_task_recv
  with assms show ?thesis
    by (auto simp: synthesize_exec_def s_task_recv_def receive_def split: task.splits list.splits)
next
  case (S_task_done oc)
  with assms show ?thesis
    by (auto simp: synthesize_exec_def s_task_done_def split: task.splits)
qed

lemma synthesize_run_input_closed:
  "closed (s_input_ch self) \<Longrightarrow> synthesize_run self ops = Some s' \<Longrightarrow>
     s_cls_module s' = s_cls_module self \<and> s_cls_name s' = s_cls_name self \<and> closed (s_input_ch s')"
proof (induction ops arbitrary: self)
  case Nil
  then show ?case by simp
next
  case (Cons a ops)
  from Cons.prems(2) obtain s1 where e: "synthesize_exec self a = Some s1"
    and r: "synthesize_run s1 ops = Some s'"
    by (auto split: option.splits)
  from synthesize_exec_input_closed [OF e] Cons.prems(1) Cons.IH [OF _ r]
  show ?case by simp
qed

lemma input_ended:
  assumes "closed (s_input_ch self)"
  shows "push_text self token
      = Inl (RuntimeError (s_cls_module self @ ''.'' @ s_cls_name self @ '' input ended''))"
    and "flush self
      = Inl (RuntimeError (s_cls_module self @ ''.'' @ s_cls_name self @ '' input ended''))"
  using assms by (simp_all add: push_text_def flush_def check_input_not_ended_def)

lemma end_input_closes:
  "end_input self = Inr s1 \<Longrightarrow>
     closed (s_input_ch s1) \<and> s_cls_module s1 = s_cls_module self \<and> s_cls_name s1 = s_cls_name self"
  by (auto simp: end_input_def flush_def chan_close_def split: sum.splits)

lemma synthesize_aclose_closes:
  "synthesize_aclose self = Inr s1 \<Longrightarrow>
     closed (s_input_ch s1) \<and> closed (s_event_ch s1)
     \<and> s_cls_module s1 = s_cls_module self \<and> s_cls_name s1 = s_cls_name self"
  by (auto simp: synthesize_aclose_def gracefully_cancel_def s_task_done_def chan_close_def Let_def split: task.splits)

text \<open>
  C3, as the code has it. After an \<^verbatim>\<open>end_input()\<close> that returned, and whatever happens
  in between, \<^verbatim>\<open>push_text\<close> and \<^verbatim>\<open>flush\<close> raise the input-ended error (the spec's
  InputEnded). After \<^verbatim>\<open>aclose()\<close> they raise the same input-ended error, not the closed
  error: \<^verbatim>\<open>aclose\<close> closes the input queue, and the input-ended check comes first. The
  closed error (the spec's StreamClosed) is raised when the event queue is closed while
  the input queue is still open, as after the background task has ended by itself.
\<close>

theorem C3_input_after_end_or_close:
  "(end_input ss = Inr ss1 \<and> synthesize_run ss1 ops = Some ss2 \<longrightarrow>
       push_text ss2 token
         = Inl (RuntimeError (s_cls_module ss @ ''.'' @ s_cls_name ss @ '' input ended''))
     \<and> flush ss2
         = Inl (RuntimeError (s_cls_module ss @ ''.'' @ s_cls_name ss @ '' input ended'')))
   \<and> (synthesize_aclose ss = Inr ss1 \<and> synthesize_run ss1 ops = Some ss2 \<longrightarrow>
       push_text ss2 token
         = Inl (RuntimeError (s_cls_module ss @ ''.'' @ s_cls_name ss @ '' input ended''))
     \<and> flush ss2
         = Inl (RuntimeError (s_cls_module ss @ ''.'' @ s_cls_name ss @ '' input ended'')))
   \<and> (\<not> closed (s_input_ch ss) \<and> closed (s_event_ch ss) \<longrightarrow>
       push_text ss token
         = Inl (RuntimeError (s_cls_module ss @ ''.'' @ s_cls_name ss @ '' is closed''))
     \<and> flush ss
         = Inl (RuntimeError (s_cls_module ss @ ''.'' @ s_cls_name ss @ '' is closed'')))"
proof -
  have after: "push_text ss2 token
         = Inl (RuntimeError (s_cls_module ss @ ''.'' @ s_cls_name ss @ '' input ended''))
     \<and> flush ss2
         = Inl (RuntimeError (s_cls_module ss @ ''.'' @ s_cls_name ss @ '' input ended''))"
    if "closed (s_input_ch ss1)" "s_cls_module ss1 = s_cls_module ss"
      "s_cls_name ss1 = s_cls_name ss" "synthesize_run ss1 ops = Some ss2"
    using synthesize_run_input_closed [OF that(1,4)] that(2,3) by (simp add: input_ended)
  have closed_only: "push_text ss token
         = Inl (RuntimeError (s_cls_module ss @ ''.'' @ s_cls_name ss @ '' is closed''))
     \<and> flush ss
         = Inl (RuntimeError (s_cls_module ss @ ''.'' @ s_cls_name ss @ '' is closed''))"
    if "\<not> closed (s_input_ch ss)" "closed (s_event_ch ss)"
    using that by (simp add: push_text_def flush_def check_input_not_ended_def check_not_closed_def)
  show ?thesis
    using after closed_only end_input_closes [of ss ss1] synthesize_aclose_closes [of ss ss1]
    by blast
qed

theorem C3_input_after_end_or_close_witness:
  "end_input (SynthesizeStream ''m'' ''S'' 0 0)
     = Inr ((SynthesizeStream ''m'' ''S'' 0 0)\<lparr>s_input_ch := \<lparr>queue = [FlushSentinel], closed = True\<rparr>\<rparr>)
   \<and> push_text ((SynthesizeStream ''m'' ''S'' 0 0)\<lparr>s_input_ch := \<lparr>queue = [], closed = True\<rparr>\<rparr>) ''hi''
     = Inl (RuntimeError ''m.S input ended'')
   \<and> synthesize_aclose (SynthesizeStream ''m'' ''S'' 0 0)
     = Inr ((SynthesizeStream ''m'' ''S'' 0 0)
         \<lparr>s_input_ch := \<lparr>queue = [], closed = True\<rparr>,
          s_event_ch := \<lparr>queue = [], closed = True\<rparr>, s_task := Done Cancelled\<rparr>)
   \<and> flush ((SynthesizeStream ''m'' ''S'' 0 0)
         \<lparr>s_input_ch := \<lparr>queue = [], closed = True\<rparr>,
          s_event_ch := \<lparr>queue = [], closed = True\<rparr>, s_task := Done Cancelled\<rparr>)
     = Inl (RuntimeError ''m.S input ended'')
   \<and> push_text (s_task_done Failed (SynthesizeStream ''m'' ''S'' 0 0)) ''hi''
     = Inl (RuntimeError ''m.S is closed'')"
proof -
  let ?s0 = "SynthesizeStream ''m'' ''S'' 0 0"
  let ?s1 = "?s0\<lparr>s_input_ch := \<lparr>queue = [FlushSentinel], closed = True\<rparr>\<rparr>"
  let ?s2 = "?s0\<lparr>s_input_ch := \<lparr>queue = [], closed = True\<rparr>\<rparr>"
  let ?s3 = "?s0\<lparr>s_input_ch := \<lparr>queue = [], closed = True\<rparr>,
          s_event_ch := \<lparr>queue = [], closed = True\<rparr>, s_task := Done Cancelled\<rparr>"
  have e: "end_input ?s0 = Inr ?s1"
    by (simp add: synthesize_defs chan_defs)
  have r: "synthesize_run ?s1 [S_task_recv] = Some ?s2"
    by (simp add: synthesize_exec_def synthesize_defs chan_defs)
  have c: "synthesize_aclose ?s0 = Inr ?s3"
    by (simp add: synthesize_defs chan_defs Let_def)
  have n: "s_cls_module ?s0 = ''m''" "s_cls_name ?s0 = ''S''"
    by (simp_all add: SynthesizeStream_def)
  have d: "\<not> closed (s_input_ch (s_task_done Failed ?s0))" "closed (s_event_ch (s_task_done Failed ?s0))"
    "s_cls_module (s_task_done Failed ?s0) = ''m''" "s_cls_name (s_task_done Failed ?s0) = ''S''"
    by (simp_all add: synthesize_defs chan_defs)
  show ?thesis
    using C3_input_after_end_or_close [where ss = ?s0 and ?ss1.0 = ?s1 and ops = "[S_task_recv]"
        and ?ss2.0 = ?s2 and token = "''hi''"]
      C3_input_after_end_or_close [where ss = ?s0 and ?ss1.0 = ?s3 and ops = "[]"
        and ?ss2.0 = ?s3 and token = "''hi''"]
      C3_input_after_end_or_close [where ss = "s_task_done Failed ?s0" and token = "''hi''"]
      e r c n d
    by simp
qed

text \<open>
  The claim as stated fails: on a new stream that has been closed, \<^verbatim>\<open>push_text\<close> raises
  the input-ended error and not the closed error.
\<close>

theorem C3_push_after_close_counterexample:
  "synthesize_aclose (SynthesizeStream ''m'' ''S'' 0 0)
     = Inr ((SynthesizeStream ''m'' ''S'' 0 0)
         \<lparr>s_input_ch := \<lparr>queue = [], closed = True\<rparr>,
          s_event_ch := \<lparr>queue = [], closed = True\<rparr>, s_task := Done Cancelled\<rparr>)
   \<and> push_text ((SynthesizeStream ''m'' ''S'' 0 0)
         \<lparr>s_input_ch := \<lparr>queue = [], closed = True\<rparr>,
          s_event_ch := \<lparr>queue = [], closed = True\<rparr>, s_task := Done Cancelled\<rparr>) ''hi''
     = Inl (RuntimeError ''m.S input ended'')
   \<and> push_text ((SynthesizeStream ''m'' ''S'' 0 0)
         \<lparr>s_input_ch := \<lparr>queue = [], closed = True\<rparr>,
          s_event_ch := \<lparr>queue = [], closed = True\<rparr>, s_task := Done Cancelled\<rparr>) ''hi''
     \<noteq> Inl (RuntimeError ''m.S is closed'')"
  by (simp add: synthesize_defs chan_defs Let_def)

subsection \<open>end_input\<close>

text \<open>
  C4. In a state where \<^verbatim>\<open>flush()\<close> succeeds, \<^verbatim>\<open>end_input()\<close> succeeds and is that flush
  followed by closing the input queue: the input queue is the old one with one flush
  marker appended, and closed. From then on, whatever happens in between,
  \<^verbatim>\<open>push_text\<close> and \<^verbatim>\<open>flush\<close> raise the input-ended error. The buffered input is still
  there for the background task: a receive of the running task takes the first item.
\<close>

theorem C4_end_input_is_flush_then_close:
  "flush ss = Inr ss1 \<longrightarrow>
     end_input ss = Inr (ss1\<lparr>s_input_ch := chan_close (s_input_ch ss1)\<rparr>)
     \<and> end_input ss = Inr (ss\<lparr>s_input_ch := \<lparr>queue = queue (s_input_ch ss) @ [FlushSentinel],
                                              closed = True\<rparr>\<rparr>)
     \<and> (end_input ss = Inr ss2 \<and> synthesize_run ss2 ops = Some ss3 \<longrightarrow>
          push_text ss3 token
            = Inl (RuntimeError (s_cls_module ss @ ''.'' @ s_cls_name ss @ '' input ended''))
        \<and> flush ss3
            = Inl (RuntimeError (s_cls_module ss @ ''.'' @ s_cls_name ss @ '' input ended'')))
     \<and> (end_input ss = Inr ss2 \<and> s_task ss = Running \<longrightarrow>
          queue (s_input_ch (s_task_recv ss2)) = tl (queue (s_input_ch ss) @ [FlushSentinel]))"
proof
  assume f: "flush ss = Inr ss1"
  then have open_in: "\<not> closed (s_input_ch ss)" and open_ev: "\<not> closed (s_event_ch ss)"
    by (auto simp: flush_def check_input_not_ended_def check_not_closed_def split: if_splits)
  have ss1: "ss1 = ss\<lparr>s_input_ch := (s_input_ch ss)\<lparr>queue := queue (s_input_ch ss) @ [FlushSentinel]\<rparr>\<rparr>"
    using f open_in open_ev
    by (simp add: flush_def check_input_not_ended_def check_not_closed_def send_nowait_def)
  have e1: "end_input ss = Inr (ss1\<lparr>s_input_ch := chan_close (s_input_ch ss1)\<rparr>)"
    using f by (simp add: end_input_def)
  have e2: "end_input ss = Inr (ss\<lparr>s_input_ch := \<lparr>queue = queue (s_input_ch ss) @ [FlushSentinel],
                                              closed = True\<rparr>\<rparr>)"
    unfolding e1 ss1 by (simp add: chan_close_def)
  have later: "push_text ss3 token
            = Inl (RuntimeError (s_cls_module ss @ ''.'' @ s_cls_name ss @ '' input ended''))
        \<and> flush ss3
            = Inl (RuntimeError (s_cls_module ss @ ''.'' @ s_cls_name ss @ '' input ended''))"
    if "end_input ss = Inr ss2" "synthesize_run ss2 ops = Some ss3"
    using end_input_closes [OF that(1)] synthesize_run_input_closed [OF _ that(2)]
    by (simp add: input_ended)
  have drain: "queue (s_input_ch (s_task_recv ss2)) = tl (queue (s_input_ch ss) @ [FlushSentinel])"
    if "end_input ss = Inr ss2" "s_task ss = Running"
    using that unfolding e2
    by (auto simp: s_task_recv_def receive_def split: list.splits)
  show "end_input ss = Inr (ss1\<lparr>s_input_ch := chan_close (s_input_ch ss1)\<rparr>)
     \<and> end_input ss = Inr (ss\<lparr>s_input_ch := \<lparr>queue = queue (s_input_ch ss) @ [FlushSentinel],
                                              closed = True\<rparr>\<rparr>)
     \<and> (end_input ss = Inr ss2 \<and> synthesize_run ss2 ops = Some ss3 \<longrightarrow>
          push_text ss3 token
            = Inl (RuntimeError (s_cls_module ss @ ''.'' @ s_cls_name ss @ '' input ended''))
        \<and> flush ss3
            = Inl (RuntimeError (s_cls_module ss @ ''.'' @ s_cls_name ss @ '' input ended'')))
     \<and> (end_input ss = Inr ss2 \<and> s_task ss = Running \<longrightarrow>
          queue (s_input_ch (s_task_recv ss2)) = tl (queue (s_input_ch ss) @ [FlushSentinel]))"
    using e1 e2 later drain by blast
qed

theorem C4_end_input_is_flush_then_close_witness:
  "flush ((SynthesizeStream ''m'' ''S'' 0 0)\<lparr>s_input_ch := \<lparr>queue = [Token ''a''], closed = False\<rparr>\<rparr>)
     = Inr ((SynthesizeStream ''m'' ''S'' 0 0)
         \<lparr>s_input_ch := \<lparr>queue = [Token ''a'', FlushSentinel], closed = False\<rparr>\<rparr>)
   \<and> end_input ((SynthesizeStream ''m'' ''S'' 0 0)\<lparr>s_input_ch := \<lparr>queue = [Token ''a''], closed = False\<rparr>\<rparr>)
     = Inr ((SynthesizeStream ''m'' ''S'' 0 0)
         \<lparr>s_input_ch := \<lparr>queue = [Token ''a'', FlushSentinel], closed = True\<rparr>\<rparr>)
   \<and> push_text ((SynthesizeStream ''m'' ''S'' 0 0)
         \<lparr>s_input_ch := \<lparr>queue = [Token ''a'', FlushSentinel], closed = True\<rparr>\<rparr>) ''b''
     = Inl (RuntimeError ''m.S input ended'')
   \<and> flush ((SynthesizeStream ''m'' ''S'' 0 0)
         \<lparr>s_input_ch := \<lparr>queue = [Token ''a'', FlushSentinel], closed = True\<rparr>\<rparr>)
     = Inl (RuntimeError ''m.S input ended'')
   \<and> queue (s_input_ch (s_task_recv ((SynthesizeStream ''m'' ''S'' 0 0)
         \<lparr>s_input_ch := \<lparr>queue = [Token ''a'', FlushSentinel], closed = True\<rparr>\<rparr>)))
     = [FlushSentinel]"
proof -
  let ?s = "(SynthesizeStream ''m'' ''S'' 0 0)\<lparr>s_input_ch := \<lparr>queue = [Token ''a''], closed = False\<rparr>\<rparr>"
  let ?s1 = "(SynthesizeStream ''m'' ''S'' 0 0)
         \<lparr>s_input_ch := \<lparr>queue = [Token ''a'', FlushSentinel], closed = False\<rparr>\<rparr>"
  let ?s2 = "(SynthesizeStream ''m'' ''S'' 0 0)
         \<lparr>s_input_ch := \<lparr>queue = [Token ''a'', FlushSentinel], closed = True\<rparr>\<rparr>"
  have f: "flush ?s = Inr ?s1"
    by (simp add: synthesize_defs chan_defs)
  have n: "s_cls_module ?s = ''m''" "s_cls_name ?s = ''S''" "s_task ?s = Running"
    "queue (s_input_ch ?s) = [Token ''a'']"
    by (simp_all add: SynthesizeStream_def)
  have r: "synthesize_run ?s2 [] = Some ?s2" by simp
  show ?thesis
    using C4_end_input_is_flush_then_close [where ss = ?s and ?ss1.0 = ?s1 and ?ss2.0 = ?s2
        and ops = "[]" and ?ss3.0 = ?s2 and token = "''b''"]
      f n r
    by (simp add: chan_close_def)
qed

subsection \<open>stream() on the base class\<close>

text \<open>
  C6. \<^verbatim>\<open>TTS.stream\<close> is an ordinary (not asynchronous) method whose body is a single raise:
  for a provider whose capabilities declare no streaming support the call raises
  \<^verbatim>\<open>NotImplementedError\<close> (the spec's UnsupportedOperation) at once, and so returns no
  stream. The base method does not read the capabilities; it raises for every provider
  that does not override it.
\<close>

theorem C6_stream_unsupported:
  "\<not> streaming (capabilities self) \<longrightarrow>
     stream self = Inl (NotImplementedError
       ''streaming is not supported by this TTS, please use a different TTS or use a StreamAdapter'')
     \<and> (\<forall>s. stream self \<noteq> Inr s)"
  by (simp add: stream_def)

theorem C6_stream_unsupported_witness:
  "\<not> streaming (capabilities (TTS \<lparr>streaming = False\<rparr> 24000 1 0 0))
   \<and> stream (TTS \<lparr>streaming = False\<rparr> 24000 1 0 0) = Inl (NotImplementedError
       ''streaming is not supported by this TTS, please use a different TTS or use a StreamAdapter'')"
  using C6_stream_unsupported [of "TTS \<lparr>streaming = False\<rparr> 24000 1 0 0"]
  by (simp add: capabilities_def TTS_def)

subsection \<open>The provider's accessors\<close>

lemma session_exec_provider:
  "session_exec w a = Some w' \<Longrightarrow> provider w' = provider w"
  by (auto simp: session_exec_def tts_exec_def tts_aclose_def
      split: session_op.splits tts_op.splits if_splits sum.splits)

lemma session_run_provider:
  "session_run w ops = Some w' \<Longrightarrow> provider w' = provider w"
proof (induction ops arbitrary: w)
  case Nil
  then show ?case by simp
next
  case (Cons a ops)
  then obtain w1 where e: "session_exec w a = Some w1" and r: "session_run w1 ops = Some w'"
    by (auto split: option.splits)
  from Cons.IH [OF r] session_exec_provider [OF e] show ?case by simp
qed

text \<open>
  C8. Whatever sequence of operations is applied to a provider and to its streams, the
  accessors \<^verbatim>\<open>capabilities\<close>, \<^verbatim>\<open>sample_rate\<close> and \<^verbatim>\<open>num_channels\<close> return the values given
  to the constructor.
\<close>

theorem C8_accessors_fixed:
  "provider w = TTS caps rate channels ct kt \<and> session_run w ops = Some w' \<longrightarrow>
     capabilities (provider w') = caps
     \<and> sample_rate (provider w') = rate
     \<and> num_channels (provider w') = channels"
  by (auto dest!: session_run_provider simp: capabilities_def sample_rate_def num_channels_def TTS_def)

theorem C8_accessors_fixed_witness:
  "session_run
     \<lparr>provider = TTS \<lparr>streaming = False\<rparr> 24000 1 0 0,
      chunked_streams = [ChunkedStream 0 0],
      synthesize_streams = [SynthesizeStream ''m'' ''S'' 0 0]\<rparr>
     [On_tts T_stream, On_synthesize 0 (S_push_text ''hi''), On_chunked 0 C_aclose, On_tts T_aclose]
   = Some
     \<lparr>provider = TTS \<lparr>streaming = False\<rparr> 24000 1 0 0,
      chunked_streams = [(ChunkedStream 0 0)
         \<lparr>c_event_ch := \<lparr>queue = [], closed = True\<rparr>, c_task := Done Cancelled\<rparr>],
      synthesize_streams = [(SynthesizeStream ''m'' ''S'' 0 0)
         \<lparr>s_input_ch := \<lparr>queue = [Token ''hi''], closed = False\<rparr>\<rparr>]\<rparr>
   \<and> capabilities (TTS \<lparr>streaming = False\<rparr> 24000 1 0 0) = \<lparr>streaming = False\<rparr>
   \<and> sample_rate (TTS \<lparr>streaming = False\<rparr> 24000 1 0 0) = 24000
   \<and> num_channels (TTS \<lparr>streaming = False\<rparr> 24000 1 0 0) = 1"
proof -
  let ?w = "\<lparr>provider = TTS \<lparr>streaming = False\<rparr> 24000 1 0 0,
      chunked_streams = [ChunkedStream 0 0],
      synthesize_streams = [SynthesizeStream ''m'' ''S'' 0 0]\<rparr>"
  let ?w' = "\<lparr>provider = TTS \<lparr>streaming = False\<rparr> 24000 1 0 0,
      chunked_streams = [(ChunkedStream 0 0)
         \<lparr>c_event_ch := \<lparr>queue = [], closed = True\<rparr>, c_task := Done Cancelled\<rparr>],
      synthesize_streams = [(SynthesizeStream ''m'' ''S'' 0 0)
         \<lparr>s_input_ch := \<lparr>queue = [Token ''hi''], closed = False\<rparr>\<rparr>]\<rparr>"
  have r: "session_run ?w
     [On_tts T_stream, On_synthesize 0 (S_push_text ''hi''), On_chunked 0 C_aclose, On_tts T_aclose]
     = Some ?w'"
    by (simp add: session_exec_def tts_exec_def tts_aclose_def stream_def
        synthesize_exec_def chunked_exec_def synthesize_defs chunked_defs chan_defs Let_def)
  show ?thesis
    using C8_accessors_fixed [where w = ?w and w' = ?w' and caps = "\<lparr>streaming = False\<rparr>"
        and rate = 24000 and channels = 1 and ct = 0 and kt = 0
        and ops = "[On_tts T_stream, On_synthesize 0 (S_push_text ''hi''), On_chunked 0 C_aclose,
          On_tts T_aclose]"] r
    by simp
qed

subsection \<open>Iterating a stream\<close>

text \<open>A queued event is returned at once, whatever the timeout and whatever the task does.\<close>

lemma chunked_anext_queued:
  assumes "queue (c_event_ch self) = x # rest"
  shows "chunked_anext self mv =
    Some (Inr x, self\<lparr>c_event_ch := (c_event_ch self)\<lparr>queue := rest\<rparr>,
                       c_timeout := c_keepalive_timeout self\<rparr>)"
  using assms by (simp add: chunked_anext_def event_ch_anext_def receive_def wait_for_def c_deliver_def Let_def)

lemma chunked_anext_drained:
  assumes "queue (c_event_ch self) = []" "closed (c_event_ch self)"
  shows "chunked_anext self mv = Some (Inl StopAsyncIteration, self)"
  using assms by (simp add: chunked_anext_def event_ch_anext_def receive_def wait_for_def c_deliver_def Let_def)

lemma chunked_async_for_queued:
  assumes "queue (c_event_ch self) = x # rest"
  shows "chunked_async_for body self mvs acc =
    chunked_async_for body
      (self\<lparr>c_event_ch := (c_event_ch self)\<lparr>queue := rest\<rparr>, c_timeout := c_keepalive_timeout self\<rparr>)
      mvs (body acc x)"
  using assms
  by (subst chunked_async_for.simps)
     (simp add: chunked_anext_queued next_move_def c_suspends_def)

lemma chunked_async_for_buffered:
  "queue (c_event_ch self) = q \<Longrightarrow> q \<noteq> [] \<Longrightarrow>
   chunked_async_for body self mvs acc =
     chunked_async_for body
       (self\<lparr>c_event_ch := (c_event_ch self)\<lparr>queue := []\<rparr>, c_timeout := c_keepalive_timeout self\<rparr>)
       mvs (foldl body acc q)"
proof (induction q arbitrary: self acc)
  case Nil
  then show ?case by simp
next
  case (Cons x rest)
  let ?s1 = "self\<lparr>c_event_ch := (c_event_ch self)\<lparr>queue := rest\<rparr>,
                   c_timeout := c_keepalive_timeout self\<rparr>"
  have step: "chunked_async_for body self mvs acc = chunked_async_for body ?s1 mvs (body acc x)"
    using Cons.prems(1) by (rule chunked_async_for_queued)
  show ?case
  proof (cases "rest = []")
    case True
    with step show ?thesis by simp
  next
    case False
    have "queue (c_event_ch ?s1) = rest" by simp
    from Cons.IH [OF this False, of "body acc x"] step show ?thesis by simp
  qed
qed

lemma chunked_async_for_drained:
  assumes "queue (c_event_ch self) = []" "closed (c_event_ch self)"
  shows "chunked_async_for body self mvs acc = Some (Inr acc, self)"
  using assms
  by (subst chunked_async_for.simps)
     (simp add: chunked_anext_drained next_move_def c_suspends_def)

lemma chunked_async_for_closed:
  assumes "closed (c_event_ch self)"
  shows "chunked_async_for body self mvs acc =
    Some (Inr (foldl body acc (queue (c_event_ch self))),
      if queue (c_event_ch self) = [] then self
      else self\<lparr>c_event_ch := (c_event_ch self)\<lparr>queue := []\<rparr>, c_timeout := c_keepalive_timeout self\<rparr>)"
proof (cases "queue (c_event_ch self) = []")
  case True
  with assms show ?thesis by (simp add: chunked_async_for_drained)
next
  case False
  from chunked_async_for_buffered [OF refl False, of body mvs acc] assms False
  show ?thesis by (simp add: chunked_async_for_drained)
qed

lemma foldl_snoc: "foldl (\<lambda>xs x. xs @ [f x]) acc q = acc @ map f q"
  by (induction q arbitrary: acc) simp_all

lemma synthesize_anext_queued:
  assumes "queue (s_event_ch self) = x # rest"
  shows "synthesize_anext self mv =
    Some (Inr x, self\<lparr>s_event_ch := (s_event_ch self)\<lparr>queue := rest\<rparr>,
                       s_timeout := s_keepalive_timeout self\<rparr>)"
  using assms by (simp add: synthesize_anext_def event_ch_anext_def receive_def wait_for_def s_deliver_def Let_def)

lemma synthesize_anext_drained:
  assumes "queue (s_event_ch self) = []" "closed (s_event_ch self)"
  shows "synthesize_anext self mv = Some (Inl StopAsyncIteration, self)"
  using assms by (simp add: synthesize_anext_def event_ch_anext_def receive_def wait_for_def s_deliver_def Let_def)

lemma synthesize_async_for_queued:
  assumes "queue (s_event_ch self) = x # rest"
  shows "synthesize_async_for body self mvs acc =
    synthesize_async_for body
      (self\<lparr>s_event_ch := (s_event_ch self)\<lparr>queue := rest\<rparr>, s_timeout := s_keepalive_timeout self\<rparr>)
      mvs (body acc x)"
  using assms
  by (subst synthesize_async_for.simps)
     (simp add: synthesize_anext_queued next_move_def s_suspends_def)

lemma synthesize_async_for_buffered:
  "queue (s_event_ch self) = q \<Longrightarrow> q \<noteq> [] \<Longrightarrow>
   synthesize_async_for body self mvs acc =
     synthesize_async_for body
       (self\<lparr>s_event_ch := (s_event_ch self)\<lparr>queue := []\<rparr>, s_timeout := s_keepalive_timeout self\<rparr>)
       mvs (foldl body acc q)"
proof (induction q arbitrary: self acc)
  case Nil
  then show ?case by simp
next
  case (Cons x rest)
  let ?s1 = "self\<lparr>s_event_ch := (s_event_ch self)\<lparr>queue := rest\<rparr>,
                   s_timeout := s_keepalive_timeout self\<rparr>"
  have step: "synthesize_async_for body self mvs acc = synthesize_async_for body ?s1 mvs (body acc x)"
    using Cons.prems(1) by (rule synthesize_async_for_queued)
  show ?case
  proof (cases "rest = []")
    case True
    with step show ?thesis by simp
  next
    case False
    have "queue (s_event_ch ?s1) = rest" by simp
    from Cons.IH [OF this False, of "body acc x"] step show ?thesis by simp
  qed
qed

lemma synthesize_async_for_drained:
  assumes "queue (s_event_ch self) = []" "closed (s_event_ch self)"
  shows "synthesize_async_for body self mvs acc = Some (Inr acc, self)"
  using assms
  by (subst synthesize_async_for.simps)
     (simp add: synthesize_anext_drained next_move_def s_suspends_def)

lemma synthesize_async_for_closed:
  assumes "closed (s_event_ch self)"
  shows "synthesize_async_for body self mvs acc =
    Some (Inr (foldl body acc (queue (s_event_ch self))),
      if queue (s_event_ch self) = [] then self
      else self\<lparr>s_event_ch := (s_event_ch self)\<lparr>queue := []\<rparr>, s_timeout := s_keepalive_timeout self\<rparr>)"
proof (cases "queue (s_event_ch self) = []")
  case True
  with assms show ?thesis by (simp add: synthesize_async_for_drained)
next
  case False
  from synthesize_async_for_buffered [OF refl False, of body mvs acc] assms False
  show ?thesis by (simp add: synthesize_async_for_drained)
qed

subsection \<open>The end of the background task\<close>

text \<open>
  C5. When the running background task ends, with whatever outcome (success, failure,
  cancellation), its done-callback closes the event queue. A consumer that iterates the
  stream from then on receives the events still queued and then the end of the stream,
  without waiting. A consumer that is waiting when the task ends, within its timeout,
  gets the end of the stream from that call.
\<close>

theorem C5_task_end_closes_event_queue:
  "(c_task cs = Running \<longrightarrow>
       closed (c_event_ch (c_task_done oc cs))
     \<and> c_task (c_task_done oc cs) = Done oc
     \<and> (\<exists>cs'. chunked_async_for (\<lambda>evs ev. evs @ [ev]) (c_task_done oc cs) mvs []
                  = Some (Inr (queue (c_event_ch cs)), cs')
              \<and> queue (c_event_ch cs') = [] \<and> closed (c_event_ch cs')))
   \<and> (c_suspends cs \<and> c_task cs = Running \<and> (c_timeout cs \<le> 0 \<or> d < c_timeout cs) \<longrightarrow>
       chunked_anext cs (Finishes d oc)
         = Some (Inl StopAsyncIteration,
                 cs\<lparr>c_event_ch := chan_close (c_event_ch cs), c_task := Done oc\<rparr>))
   \<and> (s_task ss = Running \<longrightarrow>
       closed (s_event_ch (s_task_done oc ss))
     \<and> s_task (s_task_done oc ss) = Done oc
     \<and> (\<exists>ss'. synthesize_async_for (\<lambda>evs ev. evs @ [ev]) (s_task_done oc ss) mvs []
                  = Some (Inr (queue (s_event_ch ss)), ss')
              \<and> queue (s_event_ch ss') = [] \<and> closed (s_event_ch ss')))
   \<and> (s_suspends ss \<and> s_task ss = Running \<and> (s_timeout ss \<le> 0 \<or> d < s_timeout ss) \<longrightarrow>
       synthesize_anext ss (Finishes d oc)
         = Some (Inl StopAsyncIteration,
                 ss\<lparr>s_event_ch := chan_close (s_event_ch ss), s_task := Done oc\<rparr>))"
proof -
  have c: "closed (c_event_ch (c_task_done oc cs))
     \<and> c_task (c_task_done oc cs) = Done oc
     \<and> (\<exists>cs'. chunked_async_for (\<lambda>evs ev. evs @ [ev]) (c_task_done oc cs) mvs []
                  = Some (Inr (queue (c_event_ch cs)), cs')
              \<and> queue (c_event_ch cs') = [] \<and> closed (c_event_ch cs'))"
    if "c_task cs = Running"
  proof -
    from that have d: "closed (c_event_ch (c_task_done oc cs))" "c_task (c_task_done oc cs) = Done oc"
      "queue (c_event_ch (c_task_done oc cs)) = queue (c_event_ch cs)"
      by (simp_all add: c_task_done_def chan_close_def)
    from chunked_async_for_closed [OF d(1), of "\<lambda>evs ev. evs @ [ev]" mvs "[]"] d
    show ?thesis by (simp add: foldl_snoc [where f = "\<lambda>x. x", simplified])
  qed
  have s: "closed (s_event_ch (s_task_done oc ss))
     \<and> s_task (s_task_done oc ss) = Done oc
     \<and> (\<exists>ss'. synthesize_async_for (\<lambda>evs ev. evs @ [ev]) (s_task_done oc ss) mvs []
                  = Some (Inr (queue (s_event_ch ss)), ss')
              \<and> queue (s_event_ch ss') = [] \<and> closed (s_event_ch ss'))"
    if "s_task ss = Running"
  proof -
    from that have d: "closed (s_event_ch (s_task_done oc ss))" "s_task (s_task_done oc ss) = Done oc"
      "queue (s_event_ch (s_task_done oc ss)) = queue (s_event_ch ss)"
      by (simp_all add: s_task_done_def chan_close_def)
    from synthesize_async_for_closed [OF d(1), of "\<lambda>evs ev. evs @ [ev]" mvs "[]"] d
    show ?thesis by (simp add: foldl_snoc [where f = "\<lambda>x. x", simplified])
  qed
  have cw: "chunked_anext cs (Finishes d oc)
         = Some (Inl StopAsyncIteration,
                 cs\<lparr>c_event_ch := chan_close (c_event_ch cs), c_task := Done oc\<rparr>)"
    if "c_suspends cs" "c_task cs = Running" "c_timeout cs \<le> 0 \<or> d < c_timeout cs"
    using that by (auto simp: chunked_anext_finishes)
  have sw: "synthesize_anext ss (Finishes d oc)
         = Some (Inl StopAsyncIteration,
                 ss\<lparr>s_event_ch := chan_close (s_event_ch ss), s_task := Done oc\<rparr>)"
    if "s_suspends ss" "s_task ss = Running" "s_timeout ss \<le> 0 \<or> d < s_timeout ss"
    using that by (auto simp: synthesize_anext_finishes)
  show ?thesis using c s cw sw by blast
qed

theorem C5_task_end_closes_event_queue_witness:
  "c_task (c_task_send ev0 (ChunkedStream 0 0)) = Running
   \<and> closed (c_event_ch (c_task_done Failed (c_task_send ev0 (ChunkedStream 0 0))))
   \<and> (\<exists>cs'. chunked_async_for (\<lambda>evs ev. evs @ [ev])
                (c_task_done Failed (c_task_send ev0 (ChunkedStream 0 0))) [] []
              = Some (Inr [ev0], cs')
            \<and> queue (c_event_ch cs') = [] \<and> closed (c_event_ch cs'))
   \<and> chunked_anext (ChunkedStream 0 0) (Finishes 7 Succeeded)
       = Some (Inl StopAsyncIteration,
               (ChunkedStream 0 0)\<lparr>c_event_ch := \<lparr>queue = [], closed = True\<rparr>, c_task := Done Succeeded\<rparr>)
   \<and> s_task (s_task_send ev0 (SynthesizeStream ''m'' ''S'' 0 0)) = Running
   \<and> closed (s_event_ch (s_task_done Cancelled (s_task_send ev0 (SynthesizeStream ''m'' ''S'' 0 0))))
   \<and> (\<exists>ss'. synthesize_async_for (\<lambda>evs ev. evs @ [ev])
                (s_task_done Cancelled (s_task_send ev0 (SynthesizeStream ''m'' ''S'' 0 0))) [] []
              = Some (Inr [ev0], ss')
            \<and> queue (s_event_ch ss') = [] \<and> closed (s_event_ch ss'))
   \<and> synthesize_anext (SynthesizeStream ''m'' ''S'' 9 9) (Finishes 7 Failed)
       = Some (Inl StopAsyncIteration,
               (SynthesizeStream ''m'' ''S'' 9 9)\<lparr>s_event_ch := \<lparr>queue = [], closed = True\<rparr>,
                                                   s_task := Done Failed\<rparr>)"
proof -
  have c: "c_task (c_task_send ev0 (ChunkedStream 0 0)) = Running"
    "queue (c_event_ch (c_task_send ev0 (ChunkedStream 0 0))) = [ev0]"
    "c_suspends (ChunkedStream 0 0)" "c_task (ChunkedStream 0 0) = Running"
    "c_timeout (ChunkedStream 0 0) = 0"
    "chan_close (c_event_ch (ChunkedStream 0 0)) = \<lparr>queue = [], closed = True\<rparr>"
    by (simp_all add: chunked_defs chan_defs)
  have s: "s_task (s_task_send ev0 (SynthesizeStream ''m'' ''S'' 0 0)) = Running"
    "queue (s_event_ch (s_task_send ev0 (SynthesizeStream ''m'' ''S'' 0 0))) = [ev0]"
    "s_suspends (SynthesizeStream ''m'' ''S'' 9 9)" "s_task (SynthesizeStream ''m'' ''S'' 9 9) = Running"
    "s_timeout (SynthesizeStream ''m'' ''S'' 9 9) = 9"
    "chan_close (s_event_ch (SynthesizeStream ''m'' ''S'' 9 9)) = \<lparr>queue = [], closed = True\<rparr>"
    by (simp_all add: synthesize_defs chan_defs)
  note after_failure = C5_task_end_closes_event_queue [where cs = "c_task_send ev0 (ChunkedStream 0 0)"
        and oc = Failed and mvs = "[]"]
  note while_waiting = C5_task_end_closes_event_queue [where cs = "ChunkedStream 0 0"
        and oc = Succeeded and d = 7]
  note after_cancel = C5_task_end_closes_event_queue
        [where ss = "s_task_send ev0 (SynthesizeStream ''m'' ''S'' 0 0)" and oc = Cancelled and mvs = "[]"]
  note while_waiting_s = C5_task_end_closes_event_queue [where ss = "SynthesizeStream ''m'' ''S'' 9 9"
        and oc = Failed and d = 7]
  show ?thesis
    using after_failure while_waiting after_cancel while_waiting_s c s by simp
qed

subsection \<open>Closing twice\<close>

text \<open>
  C9. \<^verbatim>\<open>aclose\<close> of either stream returns without a raise in every state, and a second
  call returns the state of the first: the task, done after the first call, is not
  cancelled again, and the queues stay closed. On a stream that is exhausted (the task
  done, the event queue closed), \<^verbatim>\<open>aclose\<close> changes nothing on a ChunkedStream and at most
  closes the input queue on a SynthesizeStream.
\<close>

theorem C9_aclose_idempotent:
  "(\<exists>cs1. chunked_aclose cs = Inr cs1 \<and> chunked_aclose cs1 = Inr cs1
          \<and> c_task cs1 \<noteq> Running \<and> closed (c_event_ch cs1))
   \<and> (\<exists>ss1. synthesize_aclose ss = Inr ss1 \<and> synthesize_aclose ss1 = Inr ss1
          \<and> s_task ss1 \<noteq> Running \<and> closed (s_event_ch ss1) \<and> closed (s_input_ch ss1))
   \<and> (c_task cs \<noteq> Running \<and> closed (c_event_ch cs) \<longrightarrow> chunked_aclose cs = Inr cs)
   \<and> (s_task ss \<noteq> Running \<and> closed (s_event_ch ss) \<longrightarrow>
        synthesize_aclose ss = Inr (ss\<lparr>s_input_ch := chan_close (s_input_ch ss)\<rparr>)
        \<and> synthesize_aclose (ss\<lparr>s_input_ch := chan_close (s_input_ch ss)\<rparr>)
            = Inr (ss\<lparr>s_input_ch := chan_close (s_input_ch ss)\<rparr>))"
proof -
  have c: "\<exists>cs1. chunked_aclose cs = Inr cs1 \<and> chunked_aclose cs1 = Inr cs1
          \<and> c_task cs1 \<noteq> Running \<and> closed (c_event_ch cs1)"
    by (cases "c_task cs") (simp_all add: chunked_aclose_def gracefully_cancel_def c_task_done_def chan_close_def Let_def)
  have s: "\<exists>ss1. synthesize_aclose ss = Inr ss1 \<and> synthesize_aclose ss1 = Inr ss1
          \<and> s_task ss1 \<noteq> Running \<and> closed (s_event_ch ss1) \<and> closed (s_input_ch ss1)"
    by (cases "s_task ss") (simp_all add: synthesize_aclose_def gracefully_cancel_def s_task_done_def chan_close_def Let_def)
  have ce: "chunked_aclose cs = Inr cs" if "c_task cs \<noteq> Running" "closed (c_event_ch cs)"
    using that by (cases "c_task cs") (simp_all add: chunked_aclose_def gracefully_cancel_def c_task_done_def chan_close_def Let_def)
  have se: "synthesize_aclose ss = Inr (ss\<lparr>s_input_ch := chan_close (s_input_ch ss)\<rparr>)
        \<and> synthesize_aclose (ss\<lparr>s_input_ch := chan_close (s_input_ch ss)\<rparr>)
            = Inr (ss\<lparr>s_input_ch := chan_close (s_input_ch ss)\<rparr>)"
    if "s_task ss \<noteq> Running" "closed (s_event_ch ss)"
    using that
    by (cases "s_task ss") (simp_all add: synthesize_aclose_def gracefully_cancel_def s_task_done_def chan_close_def Let_def)
  show ?thesis using c s ce se by blast
qed

theorem C9_aclose_idempotent_witness:
  "chunked_aclose (ChunkedStream 0 0)
     = Inr ((ChunkedStream 0 0)\<lparr>c_event_ch := \<lparr>queue = [], closed = True\<rparr>, c_task := Done Cancelled\<rparr>)
   \<and> chunked_aclose ((ChunkedStream 0 0)\<lparr>c_event_ch := \<lparr>queue = [], closed = True\<rparr>, c_task := Done Cancelled\<rparr>)
     = Inr ((ChunkedStream 0 0)\<lparr>c_event_ch := \<lparr>queue = [], closed = True\<rparr>, c_task := Done Cancelled\<rparr>)
   \<and> chunked_aclose (c_task_done Succeeded (ChunkedStream 0 0)) = Inr (c_task_done Succeeded (ChunkedStream 0 0))
   \<and> synthesize_aclose (s_task_done Succeeded (SynthesizeStream ''m'' ''S'' 0 0))
     = Inr ((s_task_done Succeeded (SynthesizeStream ''m'' ''S'' 0 0))
              \<lparr>s_input_ch := \<lparr>queue = [], closed = True\<rparr>\<rparr>)"
proof -
  have c: "chunked_aclose (ChunkedStream 0 0)
     = Inr ((ChunkedStream 0 0)\<lparr>c_event_ch := \<lparr>queue = [], closed = True\<rparr>, c_task := Done Cancelled\<rparr>)"
    by (simp add: chunked_defs chan_defs Let_def)
  have d: "c_task (c_task_done Succeeded (ChunkedStream 0 0)) \<noteq> Running"
    "closed (c_event_ch (c_task_done Succeeded (ChunkedStream 0 0)))"
    "s_task (s_task_done Succeeded (SynthesizeStream ''m'' ''S'' 0 0)) \<noteq> Running"
    "closed (s_event_ch (s_task_done Succeeded (SynthesizeStream ''m'' ''S'' 0 0)))"
    "chan_close (s_input_ch (s_task_done Succeeded (SynthesizeStream ''m'' ''S'' 0 0)))
       = \<lparr>queue = [], closed = True\<rparr>"
    by (simp_all add: chunked_defs synthesize_defs chan_defs)
  show ?thesis
    using C9_aclose_idempotent [where cs = "ChunkedStream 0 0"]
      C9_aclose_idempotent [where cs = "c_task_done Succeeded (ChunkedStream 0 0)"
        and ss = "s_task_done Succeeded (SynthesizeStream ''m'' ''S'' 0 0)"]
      c d
    by auto
qed

subsection \<open>collect\<close>

text \<open>
  The loop of \<^verbatim>\<open>collect\<close> on a stream that has to wait, against a task that sends the
  events of \<open>sent\<close>, each after its delay, and then ends: every wait is shorter than the
  timeout in force, the first under the active timeout and the others under the keepalive
  timeout.
\<close>

lemma chunked_async_for_script:
  "c_suspends self \<Longrightarrow> c_task self = Running \<Longrightarrow>
   c_timeout self \<le> 0 \<or> hd (map fst sent @ [d_end]) < c_timeout self \<Longrightarrow>
   \<forall>d \<in> set (tl (map fst sent @ [d_end])). c_keepalive_timeout self \<le> 0 \<or> d < c_keepalive_timeout self \<Longrightarrow>
   chunked_async_for body self (map (\<lambda>(d, ev). Sends d ev) sent @ [Finishes d_end oc]) acc =
     Some (Inr (foldl body acc (map snd sent)),
           self\<lparr>c_event_ch := chan_close (c_event_ch self), c_task := Done oc,
                c_timeout := (if sent = [] then c_timeout self else c_keepalive_timeout self)\<rparr>)"
proof (induction sent arbitrary: self acc)
  case Nil
  then have "chunked_anext self (Finishes d_end oc) =
      Some (Inl StopAsyncIteration, self\<lparr>c_event_ch := chan_close (c_event_ch self), c_task := Done oc\<rparr>)"
    by (auto simp: chunked_anext_finishes)
  with Nil.prems(1) show ?case
    by (subst chunked_async_for.simps) (simp add: next_move_def)
next
  case (Cons p sent)
  obtain d ev where p: "p = (d, ev)" by (cases p)
  let ?s1 = "self\<lparr>c_timeout := c_keepalive_timeout self\<rparr>"
  from Cons.prems p have a: "chunked_anext self (Sends d ev) = Some (Inr ev, ?s1)"
    by (auto simp: chunked_anext_sends)
  have s1: "c_suspends ?s1" "c_task ?s1 = Running"
    using Cons.prems(1,2) by (simp_all add: c_suspends_def)
  have later: "\<forall>d \<in> set (map fst sent @ [d_end]). c_keepalive_timeout self \<le> 0 \<or> d < c_keepalive_timeout self"
    using Cons.prems(4) by simp
  have first: "c_timeout ?s1 \<le> 0 \<or> hd (map fst sent @ [d_end]) < c_timeout ?s1"
    using later by (cases sent) auto
  have rest: "\<forall>d \<in> set (tl (map fst sent @ [d_end])). c_keepalive_timeout ?s1 \<le> 0 \<or> d < c_keepalive_timeout ?s1"
    using later by (cases sent) auto
  have step: "chunked_async_for body self (map (\<lambda>(d, ev). Sends d ev) (p # sent) @ [Finishes d_end oc]) acc
      = chunked_async_for body ?s1 (map (\<lambda>(d, ev). Sends d ev) sent @ [Finishes d_end oc]) (body acc ev)"
    using Cons.prems(1) a p
    by (subst chunked_async_for.simps) (simp add: next_move_def)
  show ?case
    unfolding step Cons.IH [OF s1 first rest] using p by simp
qed

lemma chan_all_updated: "(ch :: 'a chan)\<lparr>queue := q, closed := b\<rparr> = \<lparr>queue = q, closed = b\<rparr>"
  by (cases ch) simp

text \<open>
  The same loop while the task is on time: each event of \<open>pre\<close> arrives before the timeout
  in force and is taken, and the loop goes on with what follows.
\<close>

lemma chunked_async_for_prefix:
  "c_suspends self \<Longrightarrow> c_task self = Running \<Longrightarrow> pre \<noteq> [] \<Longrightarrow>
   c_timeout self \<le> 0 \<or> hd (map fst pre) < c_timeout self \<Longrightarrow>
   \<forall>d \<in> set (tl (map fst pre)). c_keepalive_timeout self \<le> 0 \<or> d < c_keepalive_timeout self \<Longrightarrow>
   chunked_async_for body self (map (\<lambda>(d, ev). Sends d ev) pre @ rest) acc =
     chunked_async_for body (self\<lparr>c_timeout := c_keepalive_timeout self\<rparr>) rest
       (foldl body acc (map snd pre))"
proof (induction pre arbitrary: self acc)
  case Nil
  then show ?case by simp
next
  case (Cons p pre)
  obtain d ev where p: "p = (d, ev)" by (cases p)
  let ?s1 = "self\<lparr>c_timeout := c_keepalive_timeout self\<rparr>"
  from Cons.prems p have a: "chunked_anext self (Sends d ev) = Some (Inr ev, ?s1)"
    by (auto simp: chunked_anext_sends)
  have step: "chunked_async_for body self (map (\<lambda>(d, ev). Sends d ev) (p # pre) @ rest) acc
      = chunked_async_for body ?s1 (map (\<lambda>(d, ev). Sends d ev) pre @ rest) (body acc ev)"
    using Cons.prems(1) a p
    by (subst chunked_async_for.simps) (simp add: next_move_def)
  show ?case
  proof (cases "pre = []")
    case True
    with step p show ?thesis by simp
  next
    case False
    have s1: "c_suspends ?s1" "c_task ?s1 = Running"
      using Cons.prems(1,2) by (simp_all add: c_suspends_def)
    have later: "\<forall>d \<in> set (map fst pre). c_keepalive_timeout self \<le> 0 \<or> d < c_keepalive_timeout self"
      using Cons.prems(5) by simp
    have first: "c_timeout ?s1 \<le> 0 \<or> hd (map fst pre) < c_timeout ?s1"
      using later False by (cases pre) auto
    have rest: "\<forall>d \<in> set (tl (map fst pre)). c_keepalive_timeout ?s1 \<le> 0 \<or> d < c_keepalive_timeout ?s1"
      using later False by (cases pre) auto
    show ?thesis
      unfolding step Cons.IH [OF s1 False first rest] using p by simp
  qed
qed

text \<open>A wait that outlasts the positive timeout in force ends the loop with the timeout error.\<close>

lemma chunked_async_for_late:
  assumes "c_suspends self" "c_task self = Running" "0 < c_timeout self"
    and "late = Silent \<or> (c_timeout self < d \<and> (late = Sends d ev \<or> late = Finishes d oc))"
  shows "chunked_async_for body self (late # rest) acc =
    Some (Inl (TimeoutError ''synthesis timed out''), self)"
proof -
  have "chunked_anext self late = Some (Inl (TimeoutError ''synthesis timed out''), self)"
    using assms by (auto simp: chunked_anext_sends chunked_anext_silent chunked_anext_finishes)
  with assms(1) show ?thesis
    by (subst chunked_async_for.simps) (simp add: next_move_def)
qed

lemma merge_frames_same:
  assumes "\<forall>ev \<in> set evs. frame_sample_rate (frame ev) = rate \<and> frame_num_channels (frame ev) = channels"
  shows "\<exists>fr. merge_frames (map frame evs) = Inr fr
    \<and> frame_data fr = concat (map (\<lambda>ev. frame_data (frame ev)) evs)
    \<and> (evs \<noteq> [] \<longrightarrow> frame_sample_rate fr = rate \<and> frame_num_channels fr = channels)"
proof (cases evs)
  case Nil
  then show ?thesis by (simp add: merge_frames_def)
next
  case (Cons e rest)
  have all: "list_all (\<lambda>g. frame_sample_rate g = frame_sample_rate (frame e)
                           \<and> frame_num_channels g = frame_num_channels (frame e)) (map frame evs)"
    using assms Cons by (auto simp: list_all_iff)
  have hd: "frame_sample_rate (frame e) = rate" "frame_num_channels (frame e) = channels"
    using assms Cons by simp_all
  have "merge_frames (map frame evs) =
    Inr \<lparr>frame_data = concat (map frame_data (map frame evs)),
         frame_sample_rate = frame_sample_rate (frame e),
         frame_num_channels = frame_num_channels (frame e)\<rparr>"
    unfolding merge_frames_def using all by (simp only: Cons list.map list.case if_True)
  then show ?thesis by (simp add: hd comp_def)
qed

text \<open>
  C7, as the code has it. Take a ChunkedStream whose task is running: its events are the
  ones already queued followed by the ones the task sends, each after its delay, before
  it ends. If all frames have the same sample rate and channel count, and every wait, for
  an event or for the end, is shorter than the timeout in force where that is positive
  (the active timeout for the first wait, the keepalive timeout once an event has been
  received), then \<^verbatim>\<open>collect\<close> returns one frame whose sample data is the concatenation of
  the frames in order, with their rate and channel count, and leaves the event queue empty
  and closed and the task done. The same holds for a stream whose task has already ended
  with the events queued. If instead the waits are on time up to one that outlasts the
  positive timeout in force, or the task stays silent under a positive timeout,
  \<^verbatim>\<open>collect\<close> raises the timeout error and leaves the stream open: the event queue is not
  closed and the task is still running.
\<close>

theorem C7_collect_concatenates:
  "(c_task cs = Running \<and> \<not> closed (c_event_ch cs)
      \<and> evs = queue (c_event_ch cs) @ map snd sent
      \<and> (\<forall>ev \<in> set evs. frame_sample_rate (frame ev) = rate \<and> frame_num_channels (frame ev) = channels)
      \<and> waits = map fst sent @ [d_end]
      \<and> first = (if queue (c_event_ch cs) = [] then c_timeout cs else c_keepalive_timeout cs)
      \<and> (first \<le> 0 \<or> hd waits < first)
      \<and> (\<forall>d \<in> set (tl waits). c_keepalive_timeout cs \<le> 0 \<or> d < c_keepalive_timeout cs)
    \<longrightarrow> (\<exists>fr. collect cs (map (\<lambda>(d, ev). Sends d ev) sent @ [Finishes d_end oc])
          = Some (Inr fr,
                  cs\<lparr>c_event_ch := \<lparr>queue = [], closed = True\<rparr>, c_task := Done oc,
                     c_timeout := (if evs = [] then c_timeout cs else c_keepalive_timeout cs)\<rparr>)
        \<and> frame_data fr = concat (map (\<lambda>ev. frame_data (frame ev)) evs)
        \<and> (evs \<noteq> [] \<longrightarrow> frame_sample_rate fr = rate \<and> frame_num_channels fr = channels)))
   \<and> (c_task cs = Done oc \<and> closed (c_event_ch cs) \<and> evs = queue (c_event_ch cs)
      \<and> (\<forall>ev \<in> set evs. frame_sample_rate (frame ev) = rate \<and> frame_num_channels (frame ev) = channels)
    \<longrightarrow> (\<exists>fr. collect cs mvs
          = Some (Inr fr,
                  cs\<lparr>c_event_ch := \<lparr>queue = [], closed = True\<rparr>, c_task := Done oc,
                     c_timeout := (if evs = [] then c_timeout cs else c_keepalive_timeout cs)\<rparr>)
        \<and> frame_data fr = concat (map (\<lambda>ev. frame_data (frame ev)) evs)
        \<and> (evs \<noteq> [] \<longrightarrow> frame_sample_rate fr = rate \<and> frame_num_channels fr = channels)))
   \<and> (c_task cs = Running \<and> \<not> closed (c_event_ch cs)
      \<and> waits = map fst sent
      \<and> first = (if queue (c_event_ch cs) = [] then c_timeout cs else c_keepalive_timeout cs)
      \<and> (sent = [] \<or> first \<le> 0 \<or> hd waits < first)
      \<and> (\<forall>d \<in> set (tl waits). c_keepalive_timeout cs \<le> 0 \<or> d < c_keepalive_timeout cs)
      \<and> limit = (if queue (c_event_ch cs) = [] \<and> sent = [] then c_timeout cs
                  else c_keepalive_timeout cs)
      \<and> 0 < limit
      \<and> (late = Silent \<or> (limit < d_late \<and> (late = Sends d_late ev \<or> late = Finishes d_late oc)))
    \<longrightarrow> collect cs (map (\<lambda>(d, ev). Sends d ev) sent @ late # rest)
        = Some (Inl (TimeoutError ''synthesis timed out''),
                cs\<lparr>c_event_ch := \<lparr>queue = [], closed = False\<rparr>, c_task := Running,
                   c_timeout := limit\<rparr>))"
proof (intro conjI impI)
  assume h: "c_task cs = Running \<and> \<not> closed (c_event_ch cs)
      \<and> evs = queue (c_event_ch cs) @ map snd sent
      \<and> (\<forall>ev \<in> set evs. frame_sample_rate (frame ev) = rate \<and> frame_num_channels (frame ev) = channels)
      \<and> waits = map fst sent @ [d_end]
      \<and> first = (if queue (c_event_ch cs) = [] then c_timeout cs else c_keepalive_timeout cs)
      \<and> (first \<le> 0 \<or> hd waits < first)
      \<and> (\<forall>d \<in> set (tl waits). c_keepalive_timeout cs \<le> 0 \<or> d < c_keepalive_timeout cs)"
  let ?body = "\<lambda>frames ev. frames @ [frame ev]"
  let ?mvs = "map (\<lambda>(d, ev). Sends d ev) sent @ [Finishes d_end oc]"
  let ?s0 = "cs\<lparr>c_event_ch := (c_event_ch cs)\<lparr>queue := []\<rparr>, c_timeout := first\<rparr>"
  from h have waits: "waits = map fst sent @ [d_end]"
    and first: "first = (if queue (c_event_ch cs) = [] then c_timeout cs else c_keepalive_timeout cs)"
    and fw: "first \<le> 0 \<or> hd waits < first"
    and lw: "\<forall>d \<in> set (tl waits). c_keepalive_timeout cs \<le> 0 \<or> d < c_keepalive_timeout cs"
    and evs: "evs = queue (c_event_ch cs) @ map snd sent"
    and same: "\<forall>ev \<in> set evs. frame_sample_rate (frame ev) = rate \<and> frame_num_channels (frame ev) = channels"
    by blast+
  have drain: "chunked_async_for ?body cs ?mvs [] =
      chunked_async_for ?body ?s0 ?mvs (map frame (queue (c_event_ch cs)))"
  proof (cases "queue (c_event_ch cs) = []")
    case True
    with first have "?s0 = cs" by simp
    then show ?thesis using True by simp
  next
    case False
    from chunked_async_for_buffered [OF refl False, of ?body ?mvs "[]"] False first
    show ?thesis by (simp add: foldl_snoc)
  qed
  have s0: "c_suspends ?s0" "c_task ?s0 = Running"
    using h by (simp_all add: c_suspends_def)
  have w1: "c_timeout ?s0 \<le> 0 \<or> hd (map fst sent @ [d_end]) < c_timeout ?s0"
    using fw unfolding waits by simp
  have w2: "\<forall>d \<in> set (tl (map fst sent @ [d_end])). c_keepalive_timeout ?s0 \<le> 0 \<or> d < c_keepalive_timeout ?s0"
    using lw unfolding waits by simp
  have tmo: "(if sent = [] then c_timeout ?s0 else c_keepalive_timeout ?s0)
      = (if evs = [] then c_timeout cs else c_keepalive_timeout cs)"
    using evs first by (cases "sent = []") simp_all
  have fin: "?s0\<lparr>c_event_ch := chan_close (c_event_ch ?s0), c_task := Done oc,
                  c_timeout := (if sent = [] then c_timeout ?s0 else c_keepalive_timeout ?s0)\<rparr>
      = cs\<lparr>c_event_ch := \<lparr>queue = [], closed = True\<rparr>, c_task := Done oc,
            c_timeout := (if evs = [] then c_timeout cs else c_keepalive_timeout cs)\<rparr>"
    unfolding tmo by (simp add: chan_close_def chan_all_updated)
  have loop: "chunked_async_for ?body cs ?mvs [] =
      Some (Inr (map frame evs),
            cs\<lparr>c_event_ch := \<lparr>queue = [], closed = True\<rparr>, c_task := Done oc,
               c_timeout := (if evs = [] then c_timeout cs else c_keepalive_timeout cs)\<rparr>)"
    unfolding drain chunked_async_for_script [OF s0 w1 w2] fin
    using evs by (simp add: foldl_snoc)
  from merge_frames_same [OF same] obtain fr where m: "merge_frames (map frame evs) = Inr fr"
    and fr: "frame_data fr = concat (map (\<lambda>ev. frame_data (frame ev)) evs)"
      "evs \<noteq> [] \<longrightarrow> frame_sample_rate fr = rate \<and> frame_num_channels fr = channels"
    by blast
  have "collect cs ?mvs = Some (Inr fr,
            cs\<lparr>c_event_ch := \<lparr>queue = [], closed = True\<rparr>, c_task := Done oc,
               c_timeout := (if evs = [] then c_timeout cs else c_keepalive_timeout cs)\<rparr>)"
    by (simp add: collect_def loop m)
  with fr show "(\<exists>fr. collect cs (map (\<lambda>(d, ev). Sends d ev) sent @ [Finishes d_end oc])
          = Some (Inr fr,
                  cs\<lparr>c_event_ch := \<lparr>queue = [], closed = True\<rparr>, c_task := Done oc,
                     c_timeout := (if evs = [] then c_timeout cs else c_keepalive_timeout cs)\<rparr>)
        \<and> frame_data fr = concat (map (\<lambda>ev. frame_data (frame ev)) evs)
        \<and> (evs \<noteq> [] \<longrightarrow> frame_sample_rate fr = rate \<and> frame_num_channels fr = channels))"
    by blast
next
  assume h: "c_task cs = Done oc \<and> closed (c_event_ch cs) \<and> evs = queue (c_event_ch cs)
      \<and> (\<forall>ev \<in> set evs. frame_sample_rate (frame ev) = rate \<and> frame_num_channels (frame ev) = channels)"
  let ?body = "\<lambda>frames ev. frames @ [frame ev]"
  from h have c: "closed (c_event_ch cs)" and q: "queue (c_event_ch cs) = evs"
    and t: "c_task cs = Done oc"
    and same: "\<forall>ev \<in> set evs. frame_sample_rate (frame ev) = rate \<and> frame_num_channels (frame ev) = channels"
    by auto
  have ch: "(c_event_ch cs)\<lparr>queue := []\<rparr> = \<lparr>queue = [], closed = True\<rparr>"
    using c by (cases "c_event_ch cs") simp
  have fin: "(if evs = [] then cs
       else cs\<lparr>c_event_ch := (c_event_ch cs)\<lparr>queue := []\<rparr>, c_timeout := c_keepalive_timeout cs\<rparr>)
      = cs\<lparr>c_event_ch := \<lparr>queue = [], closed = True\<rparr>, c_task := Done oc,
            c_timeout := (if evs = [] then c_timeout cs else c_keepalive_timeout cs)\<rparr>"
  proof (cases "evs = []")
    case True
    have "cs\<lparr>c_event_ch := (c_event_ch cs)\<lparr>queue := []\<rparr>\<rparr> = cs"
      using q True by simp
    with True t ch show ?thesis by simp
  next
    case False
    with t show ?thesis by (simp add: ch)
  qed
  have loop: "chunked_async_for ?body cs mvs [] =
      Some (Inr (map frame evs),
            cs\<lparr>c_event_ch := \<lparr>queue = [], closed = True\<rparr>, c_task := Done oc,
               c_timeout := (if evs = [] then c_timeout cs else c_keepalive_timeout cs)\<rparr>)"
    unfolding chunked_async_for_closed [OF c] q fin by (simp add: foldl_snoc)
  from merge_frames_same [OF same] obtain fr where m: "merge_frames (map frame evs) = Inr fr"
    and fr: "frame_data fr = concat (map (\<lambda>ev. frame_data (frame ev)) evs)"
      "evs \<noteq> [] \<longrightarrow> frame_sample_rate fr = rate \<and> frame_num_channels fr = channels"
    by blast
  have "collect cs mvs = Some (Inr fr,
            cs\<lparr>c_event_ch := \<lparr>queue = [], closed = True\<rparr>, c_task := Done oc,
               c_timeout := (if evs = [] then c_timeout cs else c_keepalive_timeout cs)\<rparr>)"
    by (simp add: collect_def loop m)
  with fr show "(\<exists>fr. collect cs mvs
          = Some (Inr fr,
                  cs\<lparr>c_event_ch := \<lparr>queue = [], closed = True\<rparr>, c_task := Done oc,
                     c_timeout := (if evs = [] then c_timeout cs else c_keepalive_timeout cs)\<rparr>)
        \<and> frame_data fr = concat (map (\<lambda>ev. frame_data (frame ev)) evs)
        \<and> (evs \<noteq> [] \<longrightarrow> frame_sample_rate fr = rate \<and> frame_num_channels fr = channels))"
    by blast
next
  assume h: "c_task cs = Running \<and> \<not> closed (c_event_ch cs)
      \<and> waits = map fst sent
      \<and> first = (if queue (c_event_ch cs) = [] then c_timeout cs else c_keepalive_timeout cs)
      \<and> (sent = [] \<or> first \<le> 0 \<or> hd waits < first)
      \<and> (\<forall>d \<in> set (tl waits). c_keepalive_timeout cs \<le> 0 \<or> d < c_keepalive_timeout cs)
      \<and> limit = (if queue (c_event_ch cs) = [] \<and> sent = [] then c_timeout cs
                  else c_keepalive_timeout cs)
      \<and> 0 < limit
      \<and> (late = Silent \<or> (limit < d_late \<and> (late = Sends d_late ev \<or> late = Finishes d_late oc)))"
  let ?body = "\<lambda>frames ev. frames @ [frame ev]"
  let ?mvs = "map (\<lambda>(d, ev). Sends d ev) sent @ late # rest"
  let ?s0 = "cs\<lparr>c_event_ch := (c_event_ch cs)\<lparr>queue := []\<rparr>, c_timeout := first\<rparr>"
  let ?s1 = "cs\<lparr>c_event_ch := (c_event_ch cs)\<lparr>queue := []\<rparr>, c_timeout := limit\<rparr>"
  from h have waits: "waits = map fst sent"
    and first: "first = (if queue (c_event_ch cs) = [] then c_timeout cs else c_keepalive_timeout cs)"
    and fw: "sent = [] \<or> first \<le> 0 \<or> hd waits < first"
    and lw: "\<forall>d \<in> set (tl waits). c_keepalive_timeout cs \<le> 0 \<or> d < c_keepalive_timeout cs"
    and limit: "limit = (if queue (c_event_ch cs) = [] \<and> sent = [] then c_timeout cs
                  else c_keepalive_timeout cs)"
    and pos: "0 < limit"
    and late: "late = Silent \<or> (limit < d_late \<and> (late = Sends d_late ev \<or> late = Finishes d_late oc))"
    and run: "c_task cs = Running" and opn: "\<not> closed (c_event_ch cs)"
    by blast+
  have drain: "chunked_async_for ?body cs ?mvs [] =
      chunked_async_for ?body ?s0 ?mvs (map frame (queue (c_event_ch cs)))"
  proof (cases "queue (c_event_ch cs) = []")
    case True
    with first have "?s0 = cs" by simp
    then show ?thesis using True by simp
  next
    case False
    from chunked_async_for_buffered [OF refl False, of ?body ?mvs "[]"] False first
    show ?thesis by (simp add: foldl_snoc)
  qed
  have s0: "c_suspends ?s0" "c_task ?s0 = Running"
    using run opn by (simp_all add: c_suspends_def)
  have s1: "c_suspends ?s1" "c_task ?s1 = Running" "0 < c_timeout ?s1"
    using run opn pos by (simp_all add: c_suspends_def)
  have late1: "late = Silent \<or> (c_timeout ?s1 < d_late \<and> (late = Sends d_late ev \<or> late = Finishes d_late oc))"
    using late by simp
  have prefix: "chunked_async_for ?body ?s0 ?mvs acc =
      chunked_async_for ?body ?s1 (late # rest) (foldl ?body acc (map snd sent))" for acc
  proof (cases "sent = []")
    case True
    with first limit have "?s0 = ?s1" by simp
    with True show ?thesis by simp
  next
    case False
    have w1: "c_timeout ?s0 \<le> 0 \<or> hd (map fst sent) < c_timeout ?s0"
      using fw False unfolding waits by simp
    have w2: "\<forall>d \<in> set (tl (map fst sent)). c_keepalive_timeout ?s0 \<le> 0 \<or> d < c_keepalive_timeout ?s0"
      using lw unfolding waits by simp
    have "?s0\<lparr>c_timeout := c_keepalive_timeout ?s0\<rparr> = ?s1"
      using False limit by simp
    with chunked_async_for_prefix [OF s0 False w1 w2, of ?body "late # rest" acc]
    show ?thesis by simp
  qed
  have ch: "(c_event_ch cs)\<lparr>queue := []\<rparr> = \<lparr>queue = [], closed = False\<rparr>"
    using opn by (cases "c_event_ch cs") simp
  have fin: "?s1 = cs\<lparr>c_event_ch := \<lparr>queue = [], closed = False\<rparr>, c_task := Running,
                      c_timeout := limit\<rparr>"
    using run by (simp add: ch)
  have loop: "chunked_async_for ?body cs ?mvs [] =
      Some (Inl (TimeoutError ''synthesis timed out''), ?s1)"
    unfolding drain prefix by (rule chunked_async_for_late [OF s1 late1])
  show "collect cs (map (\<lambda>(d, ev). Sends d ev) sent @ late # rest)
        = Some (Inl (TimeoutError ''synthesis timed out''),
                cs\<lparr>c_event_ch := \<lparr>queue = [], closed = False\<rparr>, c_task := Running,
                   c_timeout := limit\<rparr>)"
    unfolding fin [symmetric] by (simp add: collect_def loop)
qed

theorem C7_collect_concatenates_witness:
  "(\<exists>fr. collect (ChunkedStream 1 2) [Sends (1/2) ev0, Sends (3/2) ev_next, Finishes 1 Succeeded]
         = Some (Inr fr, (ChunkedStream 1 2)\<lparr>c_event_ch := \<lparr>queue = [], closed = True\<rparr>,
                                             c_task := Done Succeeded, c_timeout := 2\<rparr>)
       \<and> frame_data fr = [3, 4, 5, 6, 7] \<and> frame_sample_rate fr = 24000 \<and> frame_num_channels fr = 1)
   \<and> (\<exists>fr. collect (ChunkedStream 1 2) [Finishes (1/2) Succeeded]
         = Some (Inr fr, (ChunkedStream 1 2)\<lparr>c_event_ch := \<lparr>queue = [], closed = True\<rparr>,
                                             c_task := Done Succeeded\<rparr>)
       \<and> frame_data fr = [])
   \<and> (\<exists>fr. collect (c_task_done Succeeded (c_task_send ev_next (c_task_send ev0 (ChunkedStream 0 0)))) []
         = Some (Inr fr, (ChunkedStream 0 0)\<lparr>c_event_ch := \<lparr>queue = [], closed = True\<rparr>,
                                             c_task := Done Succeeded\<rparr>)
       \<and> frame_data fr = [3, 4, 5, 6, 7] \<and> frame_sample_rate fr = 24000 \<and> frame_num_channels fr = 1)
   \<and> collect (ChunkedStream 1 1) [Sends (1/2) ev0, Sends 2 ev_next, Finishes 0 Succeeded]
         = Some (Inl (TimeoutError ''synthesis timed out''),
                 (ChunkedStream 1 1)\<lparr>c_event_ch := \<lparr>queue = [], closed = False\<rparr>,
                                     c_task := Running, c_timeout := 1\<rparr>)"
proof -
  let ?c = "ChunkedStream 1 2"
  let ?done = "c_task_done Succeeded (c_task_send ev_next (c_task_send ev0 (ChunkedStream 0 0)))"
  let ?slow = "ChunkedStream 1 1"
  have two: "c_task ?c = Running \<and> \<not> closed (c_event_ch ?c)
      \<and> [ev0, ev_next] = queue (c_event_ch ?c) @ map snd [(1/2, ev0), (3/2, ev_next)]
      \<and> (\<forall>ev \<in> set [ev0, ev_next]. frame_sample_rate (frame ev) = 24000 \<and> frame_num_channels (frame ev) = 1)
      \<and> [1/2, 3/2, 1] = map fst [(1/2, ev0), (3/2, ev_next)] @ [1]
      \<and> 1 = (if queue (c_event_ch ?c) = [] then c_timeout ?c else c_keepalive_timeout ?c)
      \<and> ((1::real) \<le> 0 \<or> hd [1/2, 3/2, 1] < (1::real))
      \<and> (\<forall>d \<in> set (tl [1/2, 3/2, 1]). c_keepalive_timeout ?c \<le> 0 \<or> d < c_keepalive_timeout ?c)"
    by (simp add: ChunkedStream_def Chan_def)
  have none: "c_task ?c = Running \<and> \<not> closed (c_event_ch ?c)
      \<and> [] = queue (c_event_ch ?c) @ map snd []
      \<and> (\<forall>ev \<in> set []. frame_sample_rate (frame ev) = 24000 \<and> frame_num_channels (frame ev) = 1)
      \<and> [1/2] = map fst [] @ [1/2]
      \<and> 1 = (if queue (c_event_ch ?c) = [] then c_timeout ?c else c_keepalive_timeout ?c)
      \<and> ((1::real) \<le> 0 \<or> hd [1/2] < (1::real))
      \<and> (\<forall>d \<in> set (tl [1/2]). c_keepalive_timeout ?c \<le> 0 \<or> d < c_keepalive_timeout ?c)"
    by (simp add: ChunkedStream_def Chan_def)
  have ended: "c_task ?done = Done Succeeded \<and> closed (c_event_ch ?done)
      \<and> [ev0, ev_next] = queue (c_event_ch ?done)
      \<and> (\<forall>ev \<in> set [ev0, ev_next]. frame_sample_rate (frame ev) = 24000 \<and> frame_num_channels (frame ev) = 1)"
    by (simp add: chunked_defs chan_defs)
  have slow: "c_task ?slow = Running \<and> \<not> closed (c_event_ch ?slow)
      \<and> [1/2] = map fst [(1/2, ev0)]
      \<and> 1 = (if queue (c_event_ch ?slow) = [] then c_timeout ?slow else c_keepalive_timeout ?slow)
      \<and> ([(1/2, ev0)] = [] \<or> (1::real) \<le> 0 \<or> hd [1/2] < (1::real))
      \<and> (\<forall>d \<in> set (tl [1/2]). c_keepalive_timeout ?slow \<le> 0 \<or> d < c_keepalive_timeout ?slow)
      \<and> 1 = (if queue (c_event_ch ?slow) = [] \<and> [(1/2, ev0)] = [] then c_timeout ?slow
                  else c_keepalive_timeout ?slow)
      \<and> 0 < (1::real)
      \<and> (Sends 2 ev_next = Silent
          \<or> ((1::real) < 2 \<and> (Sends 2 ev_next = Sends 2 ev_next \<or> Sends 2 ev_next = Finishes 2 Failed)))"
    by (simp add: ChunkedStream_def Chan_def)
  have k: "c_keepalive_timeout ?c = 2" "c_timeout ?c = 1"
    "?done\<lparr>c_event_ch := \<lparr>queue = [], closed = True\<rparr>, c_task := Done Succeeded,
            c_timeout := c_keepalive_timeout ?done\<rparr>
      = (ChunkedStream 0 0)\<lparr>c_event_ch := \<lparr>queue = [], closed = True\<rparr>, c_task := Done Succeeded\<rparr>"
    "?c\<lparr>c_event_ch := \<lparr>queue = [], closed = True\<rparr>, c_task := Done Succeeded, c_timeout := 1\<rparr>
      = ?c\<lparr>c_event_ch := \<lparr>queue = [], closed = True\<rparr>, c_task := Done Succeeded\<rparr>"
    by (simp_all add: chunked_defs chan_defs)
  have w_two: "\<exists>fr. collect ?c [Sends (1/2) ev0, Sends (3/2) ev_next, Finishes 1 Succeeded]
         = Some (Inr fr, ?c\<lparr>c_event_ch := \<lparr>queue = [], closed = True\<rparr>,
                           c_task := Done Succeeded, c_timeout := 2\<rparr>)
       \<and> frame_data fr = [3, 4, 5, 6, 7] \<and> frame_sample_rate fr = 24000 \<and> frame_num_channels fr = 1"
    using C7_collect_concatenates [where cs = ?c and sent = "[(1/2, ev0), (3/2, ev_next)]"
        and d_end = 1 and oc = Succeeded and evs = "[ev0, ev_next]" and rate = 24000
        and channels = 1 and waits = "[1/2, 3/2, 1]" and first = 1,
        THEN conjunct1, THEN mp, OF two] k(1)
    by simp
  have w_none: "\<exists>fr. collect ?c [Finishes (1/2) Succeeded]
         = Some (Inr fr, ?c\<lparr>c_event_ch := \<lparr>queue = [], closed = True\<rparr>, c_task := Done Succeeded\<rparr>)
       \<and> frame_data fr = []"
    using C7_collect_concatenates [where cs = ?c and sent = "[]"
        and d_end = "1/2" and oc = Succeeded and evs = "[]" and rate = 24000
        and channels = 1 and waits = "[1/2]" and first = 1,
        THEN conjunct1, THEN mp, OF none] k(2,4)
    by simp
  have w_ended: "\<exists>fr. collect ?done []
         = Some (Inr fr, (ChunkedStream 0 0)\<lparr>c_event_ch := \<lparr>queue = [], closed = True\<rparr>,
                                             c_task := Done Succeeded\<rparr>)
       \<and> frame_data fr = [3, 4, 5, 6, 7] \<and> frame_sample_rate fr = 24000 \<and> frame_num_channels fr = 1"
    using C7_collect_concatenates [where cs = ?done and evs = "[ev0, ev_next]" and rate = 24000
        and channels = 1 and mvs = "[]" and oc = Succeeded,
        THEN conjunct2, THEN conjunct1, THEN mp, OF ended] k(3)
    by simp
  have w_slow: "collect ?slow [Sends (1/2) ev0, Sends 2 ev_next, Finishes 0 Succeeded]
         = Some (Inl (TimeoutError ''synthesis timed out''),
                 ?slow\<lparr>c_event_ch := \<lparr>queue = [], closed = False\<rparr>,
                        c_task := Running, c_timeout := 1\<rparr>)"
    using C7_collect_concatenates [where cs = ?slow and sent = "[(1/2, ev0)]" and waits = "[1/2]"
        and first = 1 and limit = 1 and late = "Sends 2 ev_next" and d_late = 2 and ev = ev_next
        and oc = Failed and rest = "[Finishes 0 Succeeded]",
        THEN conjunct2, THEN conjunct2, THEN mp, OF slow]
    by simp
  show ?thesis
    using w_two w_none w_ended w_slow by blast
qed

text \<open>
  The claim as stated fails where a wait outlasts the timeout: on a new stream with both
  timeouts 1 whose task sends its frame after 2 time units and then ends, \<^verbatim>\<open>collect\<close>
  raises the timeout error instead of returning a frame, and the stream is left as it
  was, the event queue open and the task running. With a task that sends its frame and
  never ends, and no timeout, \<^verbatim>\<open>collect\<close> does not return.
\<close>

theorem C7_collect_timeout_counterexample:
  "collect (ChunkedStream 1 1) [Sends 2 ev0, Finishes 0 Succeeded]
     = Some (Inl (TimeoutError ''synthesis timed out''), ChunkedStream 1 1)
   \<and> \<not> closed (c_event_ch (ChunkedStream 1 1))
   \<and> c_task (ChunkedStream 1 1) = Running
   \<and> collect (ChunkedStream 0 0) [Sends 2 ev0] = None"
proof -
  have a: "chunked_async_for (\<lambda>frames ev. frames @ [frame ev]) (ChunkedStream 1 1)
      [Sends 2 ev0, Finishes 0 Succeeded] []
      = Some (Inl (TimeoutError ''synthesis timed out''), ChunkedStream 1 1)"
    by (subst chunked_async_for.simps)
       (simp add: next_move_def chunked_fresh chunked_anext_sends)
  have s1: "c_suspends ((ChunkedStream 0 0)\<lparr>c_timeout := 0\<rparr>)"
    by (simp add: chunked_defs chan_defs)
  have b: "chunked_async_for (\<lambda>frames ev. frames @ [frame ev]) (ChunkedStream 0 0) [Sends 2 ev0] []
      = chunked_async_for (\<lambda>frames ev. frames @ [frame ev]) ((ChunkedStream 0 0)\<lparr>c_timeout := 0\<rparr>)
          [] [frame ev0]"
    by (subst chunked_async_for.simps)
       (simp add: next_move_def chunked_fresh chunked_anext_sends)
  have c: "chunked_async_for (\<lambda>frames ev. frames @ [frame ev]) ((ChunkedStream 0 0)\<lparr>c_timeout := 0\<rparr>)
          [] [frame ev0] = None"
    by (subst chunked_async_for.simps)
       (simp add: next_move_def s1 chunked_anext_silent)
  have o: "\<not> closed (c_event_ch (ChunkedStream 1 1))"
    by (simp add: ChunkedStream_def Chan_def)
  have bc: "chunked_async_for (\<lambda>frames ev. frames @ [frame ev]) (ChunkedStream 0 0) [Sends 2 ev0] []
      = None"
    by (simp only: b c)
  show ?thesis
    by (simp add: collect_def a bc o chunked_fresh)
qed

end
